theory Spec2Isabelle
  imports Complex_Main "HOL-Library.Multiset" "HOL-Library.Signed_Division" "HOL-Library.Log_Nat"
    "HOL-Library.Monad_Syntax"
begin

section \<open>The platform's data, as far as sandbox.go reads it\<close>

text \<open>
  \<^verbatim>\<open>cfclient.Space\<close>, \<^verbatim>\<open>cfclient.App\<close> and \<^verbatim>\<open>cfclient.ServiceInstance\<close> are structs of the
  client library. sandbox.go reads \<^verbatim>\<open>Guid\<close> of a space, and \<^verbatim>\<open>Guid\<close>, \<^verbatim>\<open>SpaceGuid\<close> and
  \<^verbatim>\<open>CreatedAt\<close> of an app or a service instance; the records keep these fields (and the
  name of a space), all of them Go strings.
\<close>

record Space =
  Guid :: string
  Name :: string

record App =
  Guid :: string
  SpaceGuid :: string
  CreatedAt :: string

record ServiceInstance =
  Guid :: string
  SpaceGuid :: string
  CreatedAt :: string

section \<open>Go's time package, as far as sandbox.go uses it\<close>

subsection \<open>Instants and durations\<close>

text \<open>
  A \<^verbatim>\<open>time.Time\<close> is an instant with nanosecond precision. The methods sandbox.go calls
  (\<^verbatim>\<open>IsZero\<close>, \<^verbatim>\<open>Before\<close>, \<^verbatim>\<open>After\<close>, \<^verbatim>\<open>Truncate\<close>, \<^verbatim>\<open>Sub\<close>) read the instant only, never
  the location attached to it, so an instant is modelled by the number of nanoseconds
  since Go's zero Time, January 1 of year 1, 00:00:00 UTC. The number is negative for
  an instant before that (year 0000 parses). Go keeps the seconds in an \<^verbatim>\<open>int64\<close>, which
  spans 292 billion years on either side; the model does not bound them.

  A \<^verbatim>\<open>time.Duration\<close> is an \<^verbatim>\<open>int64\<close> count of nanoseconds.
\<close>

type_synonym Time = int
type_synonym Duration = int

definition Second :: Duration where
  "Second = 1000000000"

definition Hour :: Duration where
  "Hour = 3600000000000"

definition minDuration :: Duration where
  "minDuration = - (2 ^ 63)"

definition maxDuration :: Duration where
  "maxDuration = 2 ^ 63 - 1"

text \<open>The zero value of \<^verbatim>\<open>time.Time\<close>, which \<^verbatim>\<open>var firstResource time.Time\<close> declares.\<close>

definition zeroTime :: Time where
  "zeroTime = 0"

definition IsZero :: "Time \<Rightarrow> bool" where
  "IsZero t \<longleftrightarrow> t = 0"

definition Before :: "Time \<Rightarrow> Time \<Rightarrow> bool" where
  "Before t u \<longleftrightarrow> t < u"

definition After :: "Time \<Rightarrow> Time \<Rightarrow> bool" where
  "After t u \<longleftrightarrow> u < t"

text \<open>
  \<^verbatim>\<open>t.Truncate(d)\<close> rounds \<^verbatim>\<open>t\<close> down to a multiple of \<^verbatim>\<open>d\<close> since the zero Time, and
  returns \<^verbatim>\<open>t\<close> unchanged when \<^verbatim>\<open>d <= 0\<close>. For an instant before the zero Time Go
  replaces a non-zero remainder \<^verbatim>\<open>r\<close> by \<^verbatim>\<open>d - r\<close>, so the rounding is downwards there too:
  the remainder is the one of floored division, which is \<open>mod\<close> on \<open>int\<close>.
\<close>

definition Truncate :: "Time \<Rightarrow> Duration \<Rightarrow> Time" where
  "Truncate t d = (if d \<le> 0 then t else t - t mod d)"

text \<open>
  \<^verbatim>\<open>t.Sub(u)\<close> is the duration \<^verbatim>\<open>t - u\<close>; when it does not fit a Duration, the result is
  the largest or the smallest Duration. (The anchor that sandbox.go subtracts comes out
  of \<^verbatim>\<open>Truncate\<close>, which strips the monotonic clock reading, so the wall clock is what
  is subtracted.)
\<close>

definition Sub :: "Time \<Rightarrow> Time \<Rightarrow> Duration" where
  "Sub t u =
     (if t - u < minDuration then minDuration
      else if maxDuration < t - u then maxDuration
      else t - u)"

subsection \<open>Floating point\<close>

text \<open>
  \<^verbatim>\<open>Duration.Hours\<close> returns a \<^verbatim>\<open>float64\<close>, and sandbox.go divides it by 24 in \<^verbatim>\<open>float64\<close>
  before it converts to \<^verbatim>\<open>int\<close>. A finite \<^verbatim>\<open>float64\<close> is a rational number, and every
  \<^verbatim>\<open>float64\<close> operation is the exact operation followed by rounding to the nearest
  representable value, ties to the even significand (IEEE 754 binary64, the only rounding
  Go uses). The model computes with the rationals and rounds explicitly.

  \<open>binade x\<close> is the exponent \<open>e\<close> with \<open>2 powi e \<le> x < 2 powi (e + 1)\<close> for a positive
  \<open>x\<close>; the representable numbers next to \<open>x\<close> are the multiples of \<open>2 powi (e - 52)\<close>
  (of \<open>2 powi (- 1074)\<close> in the subnormal range). Overflow to infinity is not modelled:
  the largest number this program rounds is below \<open>2 ^ 42\<close>.
\<close>

definition roundToEven :: "rat \<Rightarrow> int" where
  "roundToEven r =
     (let f = \<lfloor>r\<rfloor>; d = r - of_int f
      in if d < 1 / 2 then f else if 1 / 2 < d then f + 1 else if even f then f else f + 1)"

definition binade :: "rat \<Rightarrow> int" where
  "binade x = (if 1 \<le> x then bitlen \<lfloor>x\<rfloor> - 1 else - bitlen (\<lceil>1 / x\<rceil> - 1))"

definition ulp :: "rat \<Rightarrow> rat" where
  "ulp x = 2 powi (max (binade x) (- 1022) - 52)"

definition float64_abs :: "rat \<Rightarrow> rat" where
  "float64_abs x = of_int (roundToEven (x / ulp x)) * ulp x"

definition float64 :: "rat \<Rightarrow> rat" where
  "float64 x = (if x = 0 then 0 else sgn x * float64_abs \<bar>x\<bar>)"

text \<open>
  \<^verbatim>\<open>func (d Duration) Hours() float64\<close> of the standard library:
  \<^verbatim>\<open>hour := d / Hour; nsec := d % Hour; return float64(hour) + float64(nsec)/(60*60*1e9)\<close>.
  Go's integer \<^verbatim>\<open>/\<close> and \<^verbatim>\<open>%\<close> truncate towards zero (\<open>sdiv\<close> and \<open>smod\<close>).
\<close>

definition Hours :: "Duration \<Rightarrow> rat" where
  "Hours d =
     (let hour = d sdiv Hour; nsec = d smod Hour
      in float64 (float64 (of_int hour) + float64 (float64 (of_int nsec) / 3600000000000)))"

text \<open>The fractional part that \<^verbatim>\<open>Hours\<close> adds to the whole hours.\<close>

definition frac :: "Duration \<Rightarrow> rat" where
  "frac d = float64 (float64 (of_int (d smod Hour)) / 3600000000000)"

text \<open>Go's conversion \<^verbatim>\<open>int(f)\<close> of a \<^verbatim>\<open>float64\<close> discards the fraction (towards zero).\<close>

definition toInt :: "rat \<Rightarrow> int" where
  "toInt f = (if 0 \<le> f then \<lfloor>f\<rfloor> else \<lceil>f\<rceil>)"

subsection \<open>Parsing a timestamp\<close>

text \<open>
  sandbox.go parses \<^verbatim>\<open>CreatedAt\<close> with \<^verbatim>\<open>time.Parse(time.RFC3339Nano, ...)\<close>, a function of
  Go's standard library. The functions of sandbox.go are modelled with the parser as a
  parameter \<open>parse\<close>, which returns an error or an instant, and every general theorem
  holds for every parser.

  To run the model on concrete timestamps, \<open>parseRFC3339\<close> below computes the instant of
  a string in the strict RFC 3339 form
  \<^verbatim>\<open>YYYY-MM-DDThh:mm:ss[.fraction](Z|+hh:mm|-hh:mm)\<close>, the way the standard library's
  function of the same name does, and \<open>Parse\<close> reports an error on every other string.
  (Go's layout parser is known to accept a few strings outside the strict form; no
  concrete run in this development uses one.)
\<close>

datatype ParseError = ParseError string

definition isDigit :: "char \<Rightarrow> bool" where
  "isDigit c \<longleftrightarrow> 48 \<le> (of_char c :: int) \<and> (of_char c :: int) \<le> 57"

definition slice :: "string \<Rightarrow> nat \<Rightarrow> nat \<Rightarrow> string" where
  "slice s i j = take (j - i) (drop i s)"

definition atoi :: "string \<Rightarrow> int" where
  "atoi s = foldl (\<lambda>x c. x * 10 + (of_char c - 48)) 0 s"

definition parseUint :: "string \<Rightarrow> int \<Rightarrow> int \<Rightarrow> int option" where
  "parseUint s lo hi =
     (if list_all isDigit s \<and> lo \<le> atoi s \<and> atoi s \<le> hi then Some (atoi s) else None)"

definition isLeap :: "int \<Rightarrow> bool" where
  "isLeap year \<longleftrightarrow> year mod 4 = 0 \<and> (year mod 100 \<noteq> 0 \<or> year mod 400 = 0)"

definition daysIn :: "int \<Rightarrow> int \<Rightarrow> int" where
  "daysIn month year =
     (if month = 2 \<and> isLeap year then 29
      else [31, 28, 31, 30, 31, 30, 31, 31, 30, 31, 30, 31] ! nat (month - 1))"

definition daysBefore :: "int \<Rightarrow> int" where
  "daysBefore month =
     [0, 31, 59, 90, 120, 151, 181, 212, 243, 273, 304, 334] ! nat (month - 1)"

text \<open>
  The instant of a date and time of day in UTC (\<^verbatim>\<open>time.Date\<close> with location UTC, for a
  month in 1..12 and a day of that month): days since January 1 of year 1 in the
  proleptic Gregorian calendar, then seconds, then nanoseconds.
\<close>

definition Date :: "int \<Rightarrow> int \<Rightarrow> int \<Rightarrow> int \<Rightarrow> int \<Rightarrow> int \<Rightarrow> int \<Rightarrow> Time" where
  "Date year month day hour minute sec nsec =
     (let y = year - 1;
          d = 365 * y + y div 4 - y div 100 + y div 400
              + daysBefore month + (if 2 < month \<and> isLeap year then 1 else 0)
              + (day - 1)
      in (d * 86400 + hour * 3600 + minute * 60 + sec) * 1000000000 + nsec)"

text \<open>
  \<^verbatim>\<open>parseNanoseconds\<close>: the fraction \<^verbatim>\<open>.ddd\<close> as nanoseconds; digits after the ninth are
  dropped.
\<close>

definition parseNanoseconds :: "string \<Rightarrow> int" where
  "parseNanoseconds v = (let ds = drop 1 (take 10 v) in atoi ds * 10 ^ (9 - length ds))"

definition parseZone :: "string \<Rightarrow> int option" where
  "parseZone s =
     (if s = ''Z'' then Some 0
      else if length s \<noteq> 6 then None
      else do {
        hr \<leftarrow> parseUint (slice s 1 3) 0 23;
        mm \<leftarrow> parseUint (slice s 4 6) 0 59;
        if \<not> ((s ! 0 = CHR ''-'' \<or> s ! 0 = CHR ''+'') \<and> s ! 3 = CHR '':'') then None
        else Some ((if s ! 0 = CHR ''-'' then - 1 else 1) * ((hr * 60 + mm) * 60))
      })"

definition parseRFC3339 :: "string \<Rightarrow> Time option" where
  "parseRFC3339 s =
     (if length s < 19 then None
      else do {
        year \<leftarrow> parseUint (slice s 0 4) 0 9999;
        month \<leftarrow> parseUint (slice s 5 7) 1 12;
        day \<leftarrow> parseUint (slice s 8 10) 1 (daysIn month year);
        hour \<leftarrow> parseUint (slice s 11 13) 0 23;
        minute \<leftarrow> parseUint (slice s 14 16) 0 59;
        sec \<leftarrow> parseUint (slice s 17 19) 0 59;
        if \<not> (s ! 4 = CHR ''-'' \<and> s ! 7 = CHR ''-'' \<and> s ! 10 = CHR ''T''
                \<and> s ! 13 = CHR '':'' \<and> s ! 16 = CHR '':'') then None
        else do {
          let s1 = drop 19 s;
          let n = (if 2 \<le> length s1 \<and> s1 ! 0 = CHR ''.'' \<and> isDigit (s1 ! 1)
                   then 1 + length (takeWhile isDigit (drop 1 s1)) else 0);
          let nsec = (if n = 0 then 0 else parseNanoseconds (take n s1));
          zoneOffset \<leftarrow> parseZone (drop n s1);
          Some (Date year month day hour minute sec nsec - zoneOffset * Second)
        }
      })"

definition Parse :: "string \<Rightarrow> ParseError + Time" where
  "Parse s = (case parseRFC3339 s of None \<Rightarrow> Inl (ParseError s) | Some t \<Rightarrow> Inr t)"

section \<open>Grouping resources by space\<close>

text \<open>
  A Go \<^verbatim>\<open>map[string][]T\<close> is a partial map from strings to lists. Indexing a Go map at a key
  it does not hold yields the zero value of the element type, here the nil slice, which
  \<^verbatim>\<open>range\<close> and \<^verbatim>\<open>append\<close> treat as the empty slice.
\<close>

definition index :: "(string \<rightharpoonup> 'a list) \<Rightarrow> string \<Rightarrow> 'a list" where
  "index m k = (case m k of None \<Rightarrow> [] | Some xs \<Rightarrow> xs)"

text \<open>
  \<^verbatim>\<open>groupAppsBySpace\<close> (lines 238-249): the loop over \<^verbatim>\<open>apps\<close>, with the map built so far as
  its state. An absent key is first bound to the empty slice, then the app is appended.
\<close>

fun groupAppsBySpace_loop :: "App list \<Rightarrow> (string \<rightharpoonup> App list) \<Rightarrow> (string \<rightharpoonup> App list)" where
  "groupAppsBySpace_loop [] grouped = grouped"
| "groupAppsBySpace_loop (app # apps) grouped =
     (let grouped1 = (if grouped (App.SpaceGuid app) = None
                      then grouped(App.SpaceGuid app \<mapsto> [])
                      else grouped);
          grouped2 = grouped1(App.SpaceGuid app \<mapsto> index grouped1 (App.SpaceGuid app) @ [app])
      in groupAppsBySpace_loop apps grouped2)"

definition groupAppsBySpace :: "App list \<Rightarrow> (string \<rightharpoonup> App list)" where
  "groupAppsBySpace apps = groupAppsBySpace_loop apps Map.empty"

text \<open>\<^verbatim>\<open>groupInstancesBySpace\<close> (lines 251-262) is the same loop over service instances.\<close>

fun groupInstancesBySpace_loop ::
  "ServiceInstance list \<Rightarrow> (string \<rightharpoonup> ServiceInstance list) \<Rightarrow> (string \<rightharpoonup> ServiceInstance list)" where
  "groupInstancesBySpace_loop [] grouped = grouped"
| "groupInstancesBySpace_loop (instance # instances) grouped =
     (let grouped1 = (if grouped (ServiceInstance.SpaceGuid instance) = None
                      then grouped(ServiceInstance.SpaceGuid instance \<mapsto> [])
                      else grouped);
          grouped2 = grouped1(ServiceInstance.SpaceGuid instance \<mapsto>
                        index grouped1 (ServiceInstance.SpaceGuid instance) @ [instance])
      in groupInstancesBySpace_loop instances grouped2)"

definition groupInstancesBySpace :: "ServiceInstance list \<Rightarrow> (string \<rightharpoonup> ServiceInstance list)" where
  "groupInstancesBySpace instances = groupInstancesBySpace_loop instances Map.empty"

section \<open>The earliest resource of a space\<close>

text \<open>
  \<^verbatim>\<open>GetFirstResource\<close> (lines 163-192) returns a Time and an error. Its two loops run over
  the apps and then the service instances that the grouping holds for the space; the
  state of each loop is \<^verbatim>\<open>firstResource\<close>. A timestamp that does not parse ends the
  function at once with the value of \<^verbatim>\<open>firstResource\<close> so far and the error.
\<close>

fun GetFirstResource_apps ::
  "(string \<Rightarrow> 'e + Time) \<Rightarrow> App list \<Rightarrow> Time \<Rightarrow> Time \<times> 'e option" where
  "GetFirstResource_apps parse [] firstResource = (firstResource, None)"
| "GetFirstResource_apps parse (app # apps) firstResource =
     (case parse (App.CreatedAt app) of
        Inl err \<Rightarrow> (firstResource, Some err)
      | Inr createdAt \<Rightarrow>
          GetFirstResource_apps parse apps
            (if IsZero firstResource \<or> Before createdAt firstResource
             then createdAt else firstResource))"

fun GetFirstResource_instances ::
  "(string \<Rightarrow> 'e + Time) \<Rightarrow> ServiceInstance list \<Rightarrow> Time \<Rightarrow> Time \<times> 'e option" where
  "GetFirstResource_instances parse [] firstResource = (firstResource, None)"
| "GetFirstResource_instances parse (instance # instances) firstResource =
     (case parse (ServiceInstance.CreatedAt instance) of
        Inl err \<Rightarrow> (firstResource, Some err)
      | Inr createdAt \<Rightarrow>
          GetFirstResource_instances parse instances
            (if IsZero firstResource \<or> Before createdAt firstResource
             then createdAt else firstResource))"

definition GetFirstResource ::
  "(string \<Rightarrow> 'e + Time) \<Rightarrow> Space \<Rightarrow> App list \<Rightarrow> ServiceInstance list \<Rightarrow> Time \<times> 'e option" where
  "GetFirstResource parse space apps instances =
     (let groupedApps = groupAppsBySpace apps;
          groupedInstances = groupInstancesBySpace instances
      in case GetFirstResource_apps parse (index groupedApps (Space.Guid space)) zeroTime of
           (firstResource, Some err) \<Rightarrow> (firstResource, Some err)
         | (firstResource, None) \<Rightarrow>
             GetFirstResource_instances parse
               (index groupedInstances (Space.Guid space)) firstResource)"

section \<open>Classifying the spaces\<close>

record SpaceDetails =
  Timestamp :: Time
  Space :: Space

text \<open>
  \<^verbatim>\<open>ListPurgeSpaces\<close> (lines 201-236) has the named results \<^verbatim>\<open>toNotify\<close>, \<^verbatim>\<open>toPurge\<close> and
  \<^verbatim>\<open>err\<close>, and its loop over \<^verbatim>\<open>spaces\<close> appends to the first two. The bare \<^verbatim>\<open>return\<close>
  after a failed \<^verbatim>\<open>GetFirstResource\<close> returns the three results as they are at that
  moment, so the model returns all three in every case. The thresholds are Go \<^verbatim>\<open>int\<close>s;
  they are only compared.
\<close>

fun ListPurgeSpaces_loop ::
  "(string \<Rightarrow> 'e + Time) \<Rightarrow> Space list \<Rightarrow> App list \<Rightarrow> ServiceInstance list \<Rightarrow> Time \<Rightarrow>
   int \<Rightarrow> int \<Rightarrow> Time \<Rightarrow> SpaceDetails list \<Rightarrow> SpaceDetails list \<Rightarrow>
   SpaceDetails list \<times> SpaceDetails list \<times> 'e option" where
  "ListPurgeSpaces_loop parse [] apps instances now notifyThreshold purgeThreshold
     timeStartsAt toNotify toPurge = (toNotify, toPurge, None)"
| "ListPurgeSpaces_loop parse (space # spaces) apps instances now notifyThreshold purgeThreshold
     timeStartsAt toNotify toPurge =
     (case GetFirstResource parse space apps instances of
        (firstResource, Some err) \<Rightarrow> (toNotify, toPurge, Some err)
      | (firstResource, None) \<Rightarrow>
          if IsZero firstResource
          then ListPurgeSpaces_loop parse spaces apps instances now notifyThreshold
                 purgeThreshold timeStartsAt toNotify toPurge
          else
            let firstResource1 =
                  (if After timeStartsAt firstResource then timeStartsAt else firstResource);
                firstResource2 = Truncate firstResource1 (24 * Hour);
                delta = toInt (float64 (Hours (Sub now firstResource2) / 24))
            in if purgeThreshold \<le> delta
               then ListPurgeSpaces_loop parse spaces apps instances now notifyThreshold
                      purgeThreshold timeStartsAt toNotify
                      (toPurge @ [\<lparr>Timestamp = firstResource2, Space = space\<rparr>])
               else if notifyThreshold \<le> delta
               then ListPurgeSpaces_loop parse spaces apps instances now notifyThreshold
                      purgeThreshold timeStartsAt
                      (toNotify @ [\<lparr>Timestamp = firstResource2, Space = space\<rparr>]) toPurge
               else ListPurgeSpaces_loop parse spaces apps instances now notifyThreshold
                      purgeThreshold timeStartsAt toNotify toPurge)"

definition ListPurgeSpaces ::
  "(string \<Rightarrow> 'e + Time) \<Rightarrow> Space list \<Rightarrow> App list \<Rightarrow> ServiceInstance list \<Rightarrow> Time \<Rightarrow>
   int \<Rightarrow> int \<Rightarrow> Time \<Rightarrow> SpaceDetails list \<times> SpaceDetails list \<times> 'e option" where
  "ListPurgeSpaces parse spaces apps instances now notifyThreshold purgeThreshold timeStartsAt =
     ListPurgeSpaces_loop parse spaces apps instances now notifyThreshold purgeThreshold
       timeStartsAt [] []"

text \<open>
  What the body of the loop computes for one space, as functions of the value that
  \<^verbatim>\<open>GetFirstResource\<close> returned: the anchor of lines 223-227 (clamp to \<^verbatim>\<open>timeStartsAt\<close>, then
  truncate to 24 hours) and the \<^verbatim>\<open>delta\<close> of line 228.
\<close>

definition anchor :: "Time \<Rightarrow> Time \<Rightarrow> Time" where
  "anchor timeStartsAt firstResource =
     Truncate (if After timeStartsAt firstResource then timeStartsAt else firstResource)
       (24 * Hour)"

definition delta :: "Time \<Rightarrow> Time \<Rightarrow> int" where
  "delta now firstResource2 = toInt (float64 (Hours (Sub now firstResource2) / 24))"

text \<open>
  For the proofs: the spaces the loop gets through are the longest prefix of \<^verbatim>\<open>spaces\<close> on
  which \<^verbatim>\<open>GetFirstResource\<close> returns no error; a space of that prefix is appended to
  \<^verbatim>\<open>toPurge\<close> or to \<^verbatim>\<open>toNotify\<close> under the conditions of lines 220-233, with the entry
  \<open>details\<close>.
\<close>

definition reached ::
  "(string \<Rightarrow> 'e + Time) \<Rightarrow> App list \<Rightarrow> ServiceInstance list \<Rightarrow> Space list \<Rightarrow> Space list" where
  "reached parse apps instances spaces =
     takeWhile (\<lambda>s. snd (GetFirstResource parse s apps instances) = None) spaces"

definition details ::
  "(string \<Rightarrow> 'e + Time) \<Rightarrow> App list \<Rightarrow> ServiceInstance list \<Rightarrow> Time \<Rightarrow> Space \<Rightarrow> SpaceDetails" where
  "details parse apps instances timeStartsAt s =
     \<lparr>Timestamp = anchor timeStartsAt (fst (GetFirstResource parse s apps instances)),
      Space = s\<rparr>"

definition purged ::
  "(string \<Rightarrow> 'e + Time) \<Rightarrow> App list \<Rightarrow> ServiceInstance list \<Rightarrow> Time \<Rightarrow> int \<Rightarrow> Time \<Rightarrow>
   Space \<Rightarrow> bool" where
  "purged parse apps instances now purgeThreshold timeStartsAt s \<longleftrightarrow>
     \<not> IsZero (fst (GetFirstResource parse s apps instances)) \<and>
     purgeThreshold \<le>
       delta now (anchor timeStartsAt (fst (GetFirstResource parse s apps instances)))"

definition notified ::
  "(string \<Rightarrow> 'e + Time) \<Rightarrow> App list \<Rightarrow> ServiceInstance list \<Rightarrow> Time \<Rightarrow> int \<Rightarrow> int \<Rightarrow> Time \<Rightarrow>
   Space \<Rightarrow> bool" where
  "notified parse apps instances now notifyThreshold purgeThreshold timeStartsAt s \<longleftrightarrow>
     \<not> IsZero (fst (GetFirstResource parse s apps instances)) \<and>
     \<not> purgeThreshold \<le>
       delta now (anchor timeStartsAt (fst (GetFirstResource parse s apps instances))) \<and>
     notifyThreshold \<le>
       delta now (anchor timeStartsAt (fst (GetFirstResource parse s apps instances)))"

section \<open>Purging a space\<close>

text \<open>
  \<^verbatim>\<open>DeleteSpace\<close>, \<^verbatim>\<open>ListAppsByQuery\<close> and \<^verbatim>\<open>DeleteApp\<close> are methods of \<^verbatim>\<open>*cfclient.Client\<close>: each
  sends a request to the platform, whose state decides the answer and may change. A
  client is modelled by three functions that take the arguments and the state \<open>'w\<close> of
  the platform and return the answer and the new state; \<open>'e\<close> is the type of errors.
  A \<^verbatim>\<open>url.Values\<close> is given by its keys with their lists of values.
\<close>

record ('w, 'e) Client =
  DeleteSpace :: "string \<Rightarrow> bool \<Rightarrow> bool \<Rightarrow> 'w \<Rightarrow> 'e option \<times> 'w"
  ListAppsByQuery :: "(string \<times> string list) list \<Rightarrow> 'w \<Rightarrow> ('e + App list) \<times> 'w"
  DeleteApp :: "string \<Rightarrow> 'w \<Rightarrow> 'e option \<times> 'w"

text \<open>
  \<^verbatim>\<open>PurgeSpace\<close> (lines 51-67). The loop over the apps returns the error of the first
  deletion that fails, and no error when it has run through.
\<close>

fun PurgeSpace_apps :: "('w, 'e) Client \<Rightarrow> App list \<Rightarrow> 'w \<Rightarrow> 'e option \<times> 'w" where
  "PurgeSpace_apps client [] w = (None, w)"
| "PurgeSpace_apps client (app # apps) w =
     (case DeleteApp client (App.Guid app) w of
        (Some err, w') \<Rightarrow> (Some err, w')
      | (None, w') \<Rightarrow> PurgeSpace_apps client apps w')"

text \<open>The query of line 54, \<^verbatim>\<open>q=space_guid:<guid>\<close>.\<close>

definition spaceQuery :: "Space \<Rightarrow> (string \<times> string list) list" where
  "spaceQuery space = [(''q'', [''space_guid:'' @ Space.Guid space])]"

definition PurgeSpace :: "('w, 'e) Client \<Rightarrow> Space \<Rightarrow> 'w \<Rightarrow> 'e option \<times> 'w" where
  "PurgeSpace client space w =
     (case DeleteSpace client (Space.Guid space) True False w of
        (None, w1) \<Rightarrow> (None, w1)
      | (Some spaceErr, w1) \<Rightarrow>
          (let query = spaceQuery space
           in case ListAppsByQuery client query w1 of
                (Inl err, w2) \<Rightarrow> (Some err, w2)
              | (Inr apps, w2) \<Rightarrow>
                  (case PurgeSpace_apps client apps w2 of
                     (Some err, w3) \<Rightarrow> (Some err, w3)
                   | (None, w3) \<Rightarrow> (Some spaceErr, w3))))"

text \<open>
  To speak about the calls a function makes, a client is wrapped so that the state
  carries a log, and every call appends itself to the log.
\<close>

datatype Call =
  DeleteSpaceCall string bool bool
| ListAppsByQueryCall "(string \<times> string list) list"
| DeleteAppCall string

definition logged :: "('w, 'e) Client \<Rightarrow> ('w \<times> Call list, 'e) Client" where
  "logged client =
     \<lparr>DeleteSpace = (\<lambda>guid recursive async (w, calls).
        case DeleteSpace client guid recursive async w of
          (r, w') \<Rightarrow> (r, (w', calls @ [DeleteSpaceCall guid recursive async]))),
      ListAppsByQuery = (\<lambda>query (w, calls).
        case ListAppsByQuery client query w of
          (r, w') \<Rightarrow> (r, (w', calls @ [ListAppsByQueryCall query]))),
      DeleteApp = (\<lambda>guid (w, calls).
        case DeleteApp client guid w of
          (r, w') \<Rightarrow> (r, (w', calls @ [DeleteAppCall guid])))\<rparr>"

text \<open>
  \<open>deletions_succeed client apps ws\<close>: deleting the apps one after the other, from the
  state \<open>ws ! 0\<close>, succeeds every time, and \<open>ws\<close> lists the states passed through.
\<close>

definition deletions_succeed :: "('w, 'e) Client \<Rightarrow> App list \<Rightarrow> 'w list \<Rightarrow> bool" where
  "deletions_succeed client apps ws \<longleftrightarrow>
     length ws = Suc (length apps) \<and>
     (\<forall>i < length apps. DeleteApp client (App.Guid (apps ! i)) (ws ! i) = (None, ws ! Suc i))"

section \<open>A sandbox organization to run the model on\<close>

text \<open>
  Four spaces: \<open>spaceA\<close> holds an app (and, in some runs, more resources), \<open>spaceB\<close> a
  service instance, \<open>spaceC\<close> nothing, \<open>spaceD\<close> a recent app.
\<close>

definition spaceA :: Space where
  "spaceA = \<lparr>Space.Guid = ''guid-a'', Name = ''alpha''\<rparr>"

definition spaceB :: Space where
  "spaceB = \<lparr>Space.Guid = ''guid-b'', Name = ''beta''\<rparr>"

definition spaceC :: Space where
  "spaceC = \<lparr>Space.Guid = ''guid-c'', Name = ''gamma''\<rparr>"

definition spaceD :: Space where
  "spaceD = \<lparr>Space.Guid = ''guid-d'', Name = ''delta''\<rparr>"

definition appA :: App where
  "appA = \<lparr>App.Guid = ''app-a'', SpaceGuid = ''guid-a'', CreatedAt = ''2017-01-01T08:30:00Z''\<rparr>"

definition appA_midnight :: App where
  "appA_midnight =
     \<lparr>App.Guid = ''app-a-midnight'', SpaceGuid = ''guid-a'', CreatedAt = ''2017-01-05T00:00:00Z''\<rparr>"

definition appA_year1 :: App where
  "appA_year1 =
     \<lparr>App.Guid = ''app-a-year1'', SpaceGuid = ''guid-a'', CreatedAt = ''0001-01-01T00:00:00Z''\<rparr>"

definition appD :: App where
  "appD = \<lparr>App.Guid = ''app-d'', SpaceGuid = ''guid-d'', CreatedAt = ''2017-01-19T00:00:00Z''\<rparr>"

definition instanceA :: ServiceInstance where
  "instanceA =
     \<lparr>ServiceInstance.Guid = ''instance-a'', SpaceGuid = ''guid-a'',
      CreatedAt = ''2016-12-31T23:00:00-05:00''\<rparr>"

definition instanceB :: ServiceInstance where
  "instanceB =
     \<lparr>ServiceInstance.Guid = ''instance-b'', SpaceGuid = ''guid-b'',
      CreatedAt = ''2017-01-11T12:00:00.25Z''\<rparr>"

definition instanceB_malformed :: ServiceInstance where
  "instanceB_malformed =
     \<lparr>ServiceInstance.Guid = ''instance-b'', SpaceGuid = ''guid-b'', CreatedAt = ''yesterday''\<rparr>"

text \<open>
  A platform for \<^verbatim>\<open>PurgeSpace\<close>. Its state says whether spaces can be deleted, whether apps
  can be listed, and which apps cannot be deleted; it also keeps the apps deleted so far.
  Every space holds the apps \<open>appA\<close> and \<open>appA_midnight\<close>.
\<close>

record Platform =
  spaceDeletable :: bool
  appsListable :: bool
  stuckApps :: "string list"
  deletedApps :: "string list"

definition platformClient :: "(Platform, string) Client" where
  "platformClient =
     \<lparr>DeleteSpace = (\<lambda>guid recursive async w.
        if spaceDeletable w then (None, w) else (Some ''space not deleted'', w)),
      ListAppsByQuery = (\<lambda>query w.
        if appsListable w then (Inr [appA, appA_midnight], w) else (Inl ''apps not listed'', w)),
      DeleteApp = (\<lambda>guid w.
        if guid \<in> set (stuckApps w) then (Some ''app not deleted'', w)
        else (None, w\<lparr>deletedApps := deletedApps w @ [guid]\<rparr>))\<rparr>"

definition platform :: "bool \<Rightarrow> bool \<Rightarrow> string list \<Rightarrow> Platform" where
  "platform d l stuck =
     \<lparr>spaceDeletable = d, appsListable = l, stuckApps = stuck, deletedApps = []\<rparr>"

section \<open>Properties of the time model\<close>

subsection \<open>Rounding\<close>

lemma roundToEven_lower: "\<lfloor>r\<rfloor> \<le> roundToEven r"
  by (simp add: roundToEven_def Let_def)

lemma roundToEven_upper: "roundToEven r \<le> \<lceil>r\<rceil>"
proof (cases "r = of_int \<lfloor>r\<rfloor>")
  case True
  then have "roundToEven r = \<lfloor>r\<rfloor>" by (simp add: roundToEven_def Let_def)
  then show ?thesis by (simp add: floor_le_ceiling)
next
  case False
  then have "\<lceil>r\<rceil> = \<lfloor>r\<rfloor> + 1"
    by (metis ceiling_altdef)
  then show ?thesis by (simp add: roundToEven_def Let_def)
qed

lemma roundToEven_of_int [simp]: "roundToEven (of_int n) = n"
  by (simp add: roundToEven_def Let_def)

lemma roundToEven_mono: "r \<le> s \<Longrightarrow> roundToEven r \<le> roundToEven s"
proof (cases "\<lfloor>r\<rfloor> = \<lfloor>s\<rfloor>")
  case True
  assume "r \<le> s"
  with True show ?thesis by (auto simp: roundToEven_def Let_def)
next
  case False
  assume "r \<le> s"
  then have "\<lfloor>r\<rfloor> \<le> \<lfloor>s\<rfloor>" by (rule floor_mono)
  with False have "\<lfloor>r\<rfloor> + 1 \<le> \<lfloor>s\<rfloor>" by simp
  moreover have "roundToEven r \<le> \<lfloor>r\<rfloor> + 1" by (simp add: roundToEven_def Let_def)
  ultimately show ?thesis using roundToEven_lower [of s] by linarith
qed

text \<open>The exponent that \<open>binade\<close> computes is the right one.\<close>

lemma binade_bounds:
  assumes "0 < x"
  shows "2 powi binade x \<le> x" and "x < 2 powi (binade x + 1)"
proof -
  have "2 powi binade x \<le> x \<and> x < 2 powi (binade x + 1)"
  proof (cases "1 \<le> x")
    case True
    then have pos: "0 < \<lfloor>x\<rfloor>" by simp
    define b where "b = bitlen \<lfloor>x\<rfloor>"
    have b1: "1 \<le> b" using pos by (simp add: b_def bitlen_alt_def)
    from bitlen_bounds [OF pos]
    have lo: "2 ^ nat (b - 1) \<le> \<lfloor>x\<rfloor>" and hi: "\<lfloor>x\<rfloor> < 2 ^ nat b" by (simp_all add: b_def)
    have "(2::rat) powi (b - 1) = of_int (2 ^ nat (b - 1))"
      using b1 by (simp add: power_int_def)
    also have "\<dots> \<le> of_int \<lfloor>x\<rfloor>" using lo by (simp only: of_int_le_iff)
    also have "\<dots> \<le> x" by simp
    finally have A: "2 powi (b - 1) \<le> x" .
    have "\<lfloor>x\<rfloor> + 1 \<le> 2 ^ nat b" using hi by simp
    then have "of_int (\<lfloor>x\<rfloor> + 1) \<le> (of_int (2 ^ nat b) :: rat)" by (simp only: of_int_le_iff)
    moreover have "x < of_int (\<lfloor>x\<rfloor> + 1)" by linarith
    ultimately have "x < of_int (2 ^ nat b)" by linarith
    also have "\<dots> = (2::rat) powi b" using b1 by (simp add: power_int_def)
    finally have B: "x < 2 powi b" .
    from A B True show ?thesis by (simp add: binade_def b_def)
  next
    case False
    with assms have x1: "x < 1" by simp
    then have "1 < 1 / x" using assms by simp
    then have "1 < \<lceil>1 / x\<rceil>" by (simp add: less_ceiling_iff)
    then have pos: "0 < \<lceil>1 / x\<rceil> - 1" by simp
    define b where "b = bitlen (\<lceil>1 / x\<rceil> - 1)"
    have b1: "1 \<le> b" using pos by (simp add: b_def bitlen_alt_def)
    from bitlen_bounds [OF pos]
    have lo: "2 ^ nat (b - 1) \<le> \<lceil>1 / x\<rceil> - 1" and hi: "\<lceil>1 / x\<rceil> - 1 < 2 ^ nat b"
      by (simp_all add: b_def)
    have "1 / x \<le> of_int \<lceil>1 / x\<rceil>" by simp
    also have "\<dots> \<le> of_int (2 ^ nat b)" using hi by (simp only: of_int_le_iff)
    also have "\<dots> = (2::rat) ^ nat b" by simp
    finally have "1 / x \<le> 2 ^ nat b" .
    then have "1 \<le> 2 ^ nat b * x" using assms by (simp add: field_simps)
    then have A: "2 powi (- b) \<le> x" using b1
      by (simp add: power_int_def field_simps)
    have "of_int (\<lceil>1 / x\<rceil> - 1) < 1 / x" by linarith
    moreover have "(of_int (2 ^ nat (b - 1)) :: rat) \<le> of_int (\<lceil>1 / x\<rceil> - 1)"
      using lo by (simp only: of_int_le_iff)
    ultimately have "(2::rat) ^ nat (b - 1) < 1 / x" by simp
    then have "2 ^ nat (b - 1) * x < 1" using assms by (simp add: field_simps)
    then have B: "x < 2 powi (- b + 1)" using b1
      by (cases "b = 1") (simp_all add: power_int_def field_simps nat_diff_distrib)
    from A B False show ?thesis by (simp add: binade_def b_def)
  qed
  then show "2 powi binade x \<le> x" and "x < 2 powi (binade x + 1)" by simp_all
qed

lemma ulp_pos: "0 < ulp x"
  by (simp add: ulp_def)

lemma binade_mono:
  assumes "0 < x" "x \<le> y"
  shows "binade x \<le> binade y"
proof (rule ccontr)
  assume "\<not> binade x \<le> binade y"
  then have "binade y + 1 \<le> binade x" by simp
  then have "(2::rat) powi (binade y + 1) \<le> 2 powi binade x"
    by (intro power_int_increasing) simp_all
  also have "\<dots> \<le> x" using assms(1) by (rule binade_bounds)
  also have "\<dots> \<le> y" by fact
  also have "\<dots> < 2 powi (binade y + 1)" using assms by (intro binade_bounds) simp
  finally show False by simp
qed

lemma two_powi_shift: "(2::rat) powi (e + int k) = 2 ^ k * 2 powi e"
proof -
  have "(2::rat) powi (e + int k) = 2 powi e * 2 powi int k"
    by (rule power_int_add) simp
  then show ?thesis by simp
qed

lemma two_powi_53: "(2::rat) powi (e + 1) = 2 ^ 53 * 2 powi (e - 52)"
proof -
  have "e + 1 = (e - 52) + int 53" by simp
  then show ?thesis by (simp only: two_powi_shift)
qed

lemma two_powi_52: "(2::rat) powi e = 2 ^ 52 * 2 powi (e - 52)"
proof -
  have "e = (e - 52) + int 52" by simp
  then show ?thesis using two_powi_shift [of "e - 52" 52] by simp
qed

lemma float64_abs_nonneg: "0 < x \<Longrightarrow> 0 \<le> float64_abs x"
proof -
  assume "0 < x"
  then have "0 \<le> x / ulp x" using ulp_pos [of x] by simp
  then have "0 \<le> \<lfloor>x / ulp x\<rfloor>" by simp
  then have "0 \<le> roundToEven (x / ulp x)" using roundToEven_lower [of "x / ulp x"] by linarith
  then show ?thesis using ulp_pos [of x] by (simp add: float64_abs_def)
qed

text \<open>Rounding a positive number stays within the closure of its binade.\<close>

lemma float64_abs_upper:
  assumes "0 < x"
  shows "float64_abs x \<le> 2 powi (max (binade x) (- 1022) + 1)"
proof -
  define e where "e = max (binade x) (- 1022)"
  have u: "ulp x = 2 powi (e - 52)" by (simp add: ulp_def e_def)
  have "x < 2 powi (binade x + 1)" using assms by (rule binade_bounds)
  also have "\<dots> \<le> 2 powi (e + 1)" by (intro power_int_increasing) (simp_all add: e_def)
  finally have "x < 2 powi (e + 1)" .
  moreover have "(2::rat) powi (e + 1) = 2 ^ 53 * 2 powi (e - 52)"
    by (rule two_powi_53)
  ultimately have "x / ulp x < 2 ^ 53" using ulp_pos [of x] by (simp add: u field_simps)
  then have "x / ulp x \<le> of_int (2 ^ 53)" by simp
  then have "\<lceil>x / ulp x\<rceil> \<le> 2 ^ 53" by (simp only: ceiling_le_iff)
  then have "roundToEven (x / ulp x) \<le> 2 ^ 53" using roundToEven_upper [of "x / ulp x"] by linarith
  then have "(of_int (roundToEven (x / ulp x)) :: rat) \<le> of_int (2 ^ 53)" by (simp only: of_int_le_iff)
  then have "float64_abs x \<le> 2 ^ 53 * ulp x"
    using ulp_pos [of x] by (simp add: float64_abs_def)
  also have "\<dots> = 2 powi (e + 1)"
    by (simp only: u two_powi_53)
  finally show ?thesis by (simp add: e_def)
qed

lemma float64_abs_lower:
  assumes "0 < x" "- 1022 \<le> binade x"
  shows "2 powi binade x \<le> float64_abs x"
proof -
  define e where "e = binade x"
  have u: "ulp x = 2 powi (e - 52)" using assms(2) by (simp add: ulp_def e_def max_def)
  have "2 powi e \<le> x" unfolding e_def using assms(1) by (rule binade_bounds)
  moreover have "(2::rat) powi e = 2 ^ 52 * 2 powi (e - 52)"
    by (rule two_powi_52)
  ultimately have "of_int (2 ^ 52) \<le> x / ulp x" using ulp_pos [of x] by (simp add: u field_simps)
  then have "2 ^ 52 \<le> \<lfloor>x / ulp x\<rfloor>" by (simp only: le_floor_iff)
  then have "2 ^ 52 \<le> roundToEven (x / ulp x)" using roundToEven_lower [of "x / ulp x"] by linarith
  then have "(of_int (2 ^ 52) :: rat) \<le> of_int (roundToEven (x / ulp x))" by (simp only: of_int_le_iff)
  then have "2 ^ 52 * ulp x \<le> float64_abs x"
    using ulp_pos [of x] by (simp add: float64_abs_def)
  moreover have "2 ^ 52 * ulp x = 2 powi e"
    unfolding u by (rule two_powi_52 [symmetric])
  ultimately show ?thesis by (simp add: e_def)
qed

lemma float64_abs_mono:
  assumes "0 < x" "x \<le> y"
  shows "float64_abs x \<le> float64_abs y"
proof (cases "max (binade x) (- 1022) = max (binade y) (- 1022)")
  case True
  then have u: "ulp x = ulp y" by (simp add: ulp_def)
  have "x / ulp y \<le> y / ulp y" using assms ulp_pos [of y] by (simp add: divide_right_mono)
  then have "roundToEven (x / ulp y) \<le> roundToEven (y / ulp y)" by (rule roundToEven_mono)
  then have "(of_int (roundToEven (x / ulp y)) :: rat) \<le> of_int (roundToEven (y / ulp y))"
    by (simp only: of_int_le_iff)
  then show ?thesis using ulp_pos [of y] by (simp add: float64_abs_def u)
next
  case False
  have "binade x \<le> binade y" using assms by (rule binade_mono)
  with False have lt: "max (binade x) (- 1022) + 1 \<le> binade y" and ge: "- 1022 \<le> binade y"
    by (auto simp: max_def split: if_splits)
  have "float64_abs x \<le> 2 powi (max (binade x) (- 1022) + 1)"
    using assms(1) by (rule float64_abs_upper)
  also have "\<dots> \<le> 2 powi binade y" using lt by (rule power_int_increasing) simp
  also have "\<dots> \<le> float64_abs y" using assms ge by (intro float64_abs_lower) simp_all
  finally show ?thesis .
qed

text \<open>Rounding to the nearest \<^verbatim>\<open>float64\<close> is monotone.\<close>

lemma float64_mono:
  assumes "x \<le> y"
  shows "float64 x \<le> float64 y"
proof -
  consider "0 < x" | "x \<le> 0" "0 \<le> y" | "y < 0" by linarith
  then show ?thesis
  proof cases
    case 1
    then show ?thesis using assms float64_abs_mono [of x y] by (simp add: float64_def)
  next
    case 2
    have "float64 x \<le> 0" using float64_abs_nonneg [of "- x"] 2(1)
      by (cases "x = 0") (simp_all add: float64_def)
    moreover have "0 \<le> float64 y" using float64_abs_nonneg [of y] 2(2)
      by (cases "y = 0") (simp_all add: float64_def)
    ultimately show ?thesis by simp
  next
    case 3
    then show ?thesis using assms float64_abs_mono [of "- y" "- x"] by (simp add: float64_def)
  qed
qed

text \<open>An integer below \<open>2 ^ 53\<close> in absolute value is a \<^verbatim>\<open>float64\<close>.\<close>

lemma float64_of_int:
  assumes "\<bar>n\<bar> < 2 ^ 53"
  shows "float64 (of_int n) = of_int n"
proof (cases "n = 0")
  case True
  then show ?thesis by (simp add: float64_def)
next
  case False
  define m where "m = \<bar>n\<bar>"
  define x :: rat where "x = of_int m"
  have m: "1 \<le> m" "m < 2 ^ 53" using False assms by (simp_all add: m_def)
  then have x: "0 < x" "1 \<le> x" by (simp_all add: x_def)
  define e where "e = binade x"
  have "2 powi e \<le> x" "x < 2 powi (e + 1)" unfolding e_def using x(1) by (rule binade_bounds)+
  have e0: "0 \<le> e"
  proof (rule ccontr)
    assume "\<not> 0 \<le> e"
    then have "e + 1 \<le> 0" by simp
    then have "(2::rat) powi (e + 1) \<le> 2 powi 0" by (intro power_int_increasing) simp_all
    with \<open>x < 2 powi (e + 1)\<close> x(2) show False by simp
  qed
  have e52: "e \<le> 52"
  proof (rule ccontr)
    assume "\<not> e \<le> 52"
    then have "53 \<le> e" by simp
    then have "(2::rat) powi 53 \<le> 2 powi e" by (intro power_int_increasing) simp_all
    with \<open>2 powi e \<le> x\<close> have "(2::rat) ^ 53 \<le> of_int m" by (simp add: x_def)
    then have "(of_int (2 ^ 53) :: rat) \<le> of_int m" by simp
    then have "2 ^ 53 \<le> m" by (simp only: of_int_le_iff)
    with m(2) show False by simp
  qed
  define k where "k = nat (52 - e)"
  have u: "ulp x = 1 / 2 ^ k"
    using e0 e52 by (simp add: ulp_def e_def [symmetric] k_def power_int_def max_def power_one_over)
  have "x / ulp x = x * 2 ^ k" unfolding u by simp
  also have "\<dots> = of_int (m * 2 ^ k)" by (simp add: x_def)
  finally have "roundToEven (x / ulp x) = m * 2 ^ k" by (simp only: roundToEven_of_int)
  then have "float64_abs x = of_int (m * 2 ^ k) * (1 / 2 ^ k)"
    unfolding float64_abs_def u by simp
  also have "\<dots> = x" by (simp add: x_def)
  finally have "float64_abs x = x" .
  then have "float64 (of_int n) = sgn (of_int n) * \<bar>of_int n\<bar>"
    using False by (simp add: float64_def x_def m_def)
  then show ?thesis by (simp add: mult_sgn_abs)
qed

subsection \<open>Hours and days of a duration\<close>

lemma Hour_pos: "0 < Hour" by (simp add: Hour_def)

lemma sdiv_nonneg_eq: "0 \<le> d \<Longrightarrow> 0 < h \<Longrightarrow> (d::int) sdiv h = d div h"
  by (cases "d = 0") (simp_all add: signed_divide_int_def)

lemma sdiv_neg_eq: "d < 0 \<Longrightarrow> 0 < h \<Longrightarrow> (d::int) sdiv h = - ((- d) div h)"
  by (simp add: signed_divide_int_def)

lemma sdiv_mono: 
  assumes "d \<le> d'" "0 < h"
  shows "(d::int) sdiv h \<le> d' sdiv h"
proof -
  consider "0 \<le> d" | "d < 0" "0 \<le> d'" | "d' < 0" by linarith
  then show ?thesis
  proof cases
    case 1
    then show ?thesis using assms by (simp add: sdiv_nonneg_eq zdiv_mono1)
  next
    case 2
    have "0 \<le> (- d) div h" using 2(1) assms(2) by (simp add: pos_imp_zdiv_nonneg_iff)
    moreover have "0 \<le> d' div h" using 2(2) assms(2) by (simp add: pos_imp_zdiv_nonneg_iff)
    ultimately show ?thesis using 2 assms(2) by (simp add: sdiv_nonneg_eq sdiv_neg_eq)
  next
    case 3
    then have "(- d') div h \<le> (- d) div h" using assms by (intro zdiv_mono1) simp_all
    then show ?thesis using 3 assms by (simp add: sdiv_neg_eq)
  qed
qed

lemma smod_bounds:
  assumes "0 < h"
  shows "0 \<le> d \<Longrightarrow> 0 \<le> (d::int) smod h \<and> d smod h \<le> h"
    and "d \<le> 0 \<Longrightarrow> - h \<le> d smod h \<and> d smod h \<le> 0"
  using assms smod_int_compares(1) [of d h] smod_int_compares(2) [of d h]
    smod_int_compares(3) [of d h] smod_int_compares(4) [of d h]
  by auto

lemma float64_0 [simp]: "float64 0 = 0" by (simp add: float64_def)
lemma float64_1 [simp]: "float64 1 = 1" using float64_of_int [of 1] by simp
lemma float64_m1 [simp]: "float64 (- 1) = - 1" using float64_of_int [of "- 1"] by simp

lemma frac_nonneg:
  assumes "0 \<le> d"
  shows "0 \<le> frac d" and "frac d \<le> 1"
proof -
  from smod_bounds(1) [OF Hour_pos assms]
  have r: "0 \<le> d smod Hour" "d smod Hour \<le> 3600000000000" by (simp_all add: Hour_def)
  have "float64 (of_int 0) \<le> float64 (of_int (d smod Hour))"
    using r(1) by (intro float64_mono) simp
  then have lo: "0 \<le> float64 (of_int (d smod Hour))" by simp
  have "float64 (of_int (d smod Hour)) \<le> float64 (of_int 3600000000000)"
    using r(2) by (intro float64_mono) simp
  also have "\<dots> = of_int 3600000000000" by (rule float64_of_int) simp
  finally have hi: "float64 (of_int (d smod Hour)) \<le> 3600000000000" by simp
  have "float64 0 \<le> frac d" unfolding frac_def using lo by (intro float64_mono) simp
  then show "0 \<le> frac d" by simp
  have "frac d \<le> float64 1" unfolding frac_def using hi by (intro float64_mono) simp
  then show "frac d \<le> 1" by simp
qed

lemma frac_nonpos:
  assumes "d \<le> 0"
  shows "- 1 \<le> frac d" and "frac d \<le> 0"
proof -
  from smod_bounds(2) [OF Hour_pos assms]
  have r: "- 3600000000000 \<le> d smod Hour" "d smod Hour \<le> 0" by (simp_all add: Hour_def)
  have "float64 (of_int (d smod Hour)) \<le> float64 (of_int 0)"
    using r(2) by (intro float64_mono) simp
  then have hi: "float64 (of_int (d smod Hour)) \<le> 0" by simp
  have "float64 (of_int (- 3600000000000)) \<le> float64 (of_int (d smod Hour))"
    using r(1) by (intro float64_mono) simp
  moreover have "float64 (of_int (- 3600000000000)) = of_int (- 3600000000000)"
    by (rule float64_of_int) simp
  ultimately have lo: "- 3600000000000 \<le> float64 (of_int (d smod Hour))" by simp
  have "frac d \<le> float64 0" unfolding frac_def using hi
    by (intro float64_mono) (simp add: divide_le_0_iff)
  then show "frac d \<le> 0" by simp
  have "float64 (- 1) \<le> frac d" unfolding frac_def using lo by (intro float64_mono) simp
  then show "- 1 \<le> frac d" by simp
qed

lemma frac_mono:
  assumes "d smod Hour \<le> d' smod Hour"
  shows "frac d \<le> frac d'"
proof -
  have "float64 (of_int (d smod Hour)) \<le> float64 (of_int (d' smod Hour))"
    using assms by (intro float64_mono) simp
  then show ?thesis unfolding frac_def by (intro float64_mono) (simp add: divide_right_mono)
qed

lemma Hours_eq:
  assumes "minDuration \<le> d" "d \<le> maxDuration"
  shows "Hours d = float64 (of_int (d sdiv Hour) + frac d)"
proof -
  have "\<bar>d sdiv Hour\<bar> = \<bar>d\<bar> div Hour"
  proof (cases "0 \<le> d")
    case True
    then have "0 \<le> d div Hour" using Hour_pos by (simp add: pos_imp_zdiv_nonneg_iff)
    with True show ?thesis using Hour_pos by (simp add: sdiv_nonneg_eq)
  next
    case False
    then have "0 \<le> (- d) div Hour" using Hour_pos by (simp add: pos_imp_zdiv_nonneg_iff)
    with False show ?thesis using Hour_pos by (simp add: sdiv_neg_eq)
  qed
  moreover have "\<bar>d\<bar> \<le> 2 ^ 63" using assms by (simp add: minDuration_def maxDuration_def)
  then have "\<bar>d\<bar> div Hour \<le> 2 ^ 63 div Hour" using Hour_pos by (intro zdiv_mono1)
  moreover have "(2 ^ 63 :: int) div Hour < 2 ^ 53" by (simp add: Hour_def)
  ultimately have "\<bar>d sdiv Hour\<bar> < 2 ^ 53" by linarith
  then have "float64 (of_int (d sdiv Hour)) = of_int (d sdiv Hour)" by (rule float64_of_int)
  then show ?thesis by (simp add: Hours_def frac_def Let_def)
qed

lemma Hours_mono:
  assumes "minDuration \<le> d" "d \<le> d'" "d' \<le> maxDuration"
  shows "Hours d \<le> Hours d'"
proof -
  define q r q' r' where "q = d sdiv Hour" and "r = d smod Hour"
    and "q' = d' sdiv Hour" and "r' = d' smod Hour"
  have d: "d = q * Hour + r" and d': "d' = q' * Hour + r'"
    by (simp_all add: q_def r_def q'_def r'_def sdiv_mult_smod_eq)
  have qq: "q \<le> q'" unfolding q_def q'_def using assms(2) Hour_pos by (rule sdiv_mono)
  have "of_int q + frac d \<le> of_int q' + frac d'"
  proof (cases "q = q'")
    case True
    with d d' assms(2) have "r \<le> r'" by simp
    then have "frac d \<le> frac d'" unfolding r_def r'_def by (rule frac_mono)
    with True show ?thesis by simp
  next
    case False
    with qq have lt: "q + 1 \<le> q'" by simp
    then have lt': "(of_int q :: rat) + 1 \<le> of_int q'"
      by (metis of_int_1 of_int_add of_int_le_iff)
    show ?thesis
    proof (cases "0 \<le> d")
      case True
      with assms(2) have "0 \<le> d'" by simp
      then have "0 \<le> frac d'" by (rule frac_nonneg)
      moreover have "frac d \<le> 1" using True by (rule frac_nonneg)
      ultimately show ?thesis using lt' by linarith
    next
      case False
      then have "frac d \<le> 0" by (intro frac_nonpos) simp
      moreover have "- 1 \<le> frac d'"
      proof (cases "0 \<le> d'")
        case True
        then have "0 \<le> frac d'" by (rule frac_nonneg)
        then show ?thesis by simp
      next
        case False
        then show ?thesis by (intro frac_nonpos) simp
      qed
      ultimately show ?thesis using lt' by linarith
    qed
  qed
  then have "float64 (of_int q + frac d) \<le> float64 (of_int q' + frac d')" by (rule float64_mono)
  moreover have "Hours d = float64 (of_int q + frac d)"
    unfolding q_def using assms by (intro Hours_eq) simp_all
  moreover have "Hours d' = float64 (of_int q' + frac d')"
    unfolding q'_def using assms by (intro Hours_eq) simp_all
  ultimately show ?thesis by simp
qed

lemma toInt_mono:
  assumes "x \<le> y"
  shows "toInt x \<le> toInt y"
proof -
  consider "0 \<le> x" | "x < 0" "0 \<le> y" | "y < 0" by linarith
  then show ?thesis
  proof cases
    case 1
    then show ?thesis using assms by (simp add: toInt_def floor_mono)
  next
    case 2
    have "\<lceil>x\<rceil> \<le> 0" using 2(1) by (simp add: ceiling_le_iff)
    moreover have "0 \<le> \<lfloor>y\<rfloor>" using 2(2) by simp
    ultimately have "\<lceil>x\<rceil> \<le> \<lfloor>y\<rfloor>" by (rule order_trans)
    then show ?thesis using 2 by (simp add: toInt_def)
  next
    case 3
    then show ?thesis using assms by (simp add: toInt_def ceiling_mono)
  qed
qed

lemma Sub_range: "minDuration \<le> Sub t u" "Sub t u \<le> maxDuration"
  by (simp_all add: Sub_def minDuration_def maxDuration_def)

lemma Sub_mono: "t \<le> t' \<Longrightarrow> Sub t u \<le> Sub t' u"
  by (simp add: Sub_def minDuration_def maxDuration_def)

text \<open>A later \<^verbatim>\<open>now\<close> never gives a smaller \<^verbatim>\<open>delta\<close>.\<close>

lemma delta_mono:
  assumes "now \<le> now'"
  shows "delta now a \<le> delta now' a"
proof -
  have "Hours (Sub now a) \<le> Hours (Sub now' a)"
    using Sub_range(1) [of now a] Sub_mono [OF assms, of a] Sub_range(2) [of now' a]
    by (rule Hours_mono)
  then have "float64 (Hours (Sub now a) / 24) \<le> float64 (Hours (Sub now' a) / 24)"
    by (intro float64_mono) (simp add: divide_right_mono)
  then show ?thesis unfolding delta_def by (rule toInt_mono)
qed

subsection \<open>Truncation\<close>

lemma Truncate_le: "Truncate t d \<le> t"
  by (simp add: Truncate_def)

lemma Truncate_eq_mult: "0 < d \<Longrightarrow> Truncate t d = d * (t div d)"
  by (simp add: Truncate_def minus_mod_eq_mult_div)

lemma Truncate_mono: "t \<le> u \<Longrightarrow> Truncate t d \<le> Truncate u d"
proof (cases "0 < d")
  case True
  assume "t \<le> u"
  then have "t div d \<le> u div d" using True by (rule zdiv_mono1)
  then show ?thesis using True by (simp add: Truncate_eq_mult)
next
  case False
  assume "t \<le> u"
  with False show ?thesis by (simp add: Truncate_def)
qed

lemma Truncate_idem: "Truncate (Truncate t d) d = Truncate t d"
  by (cases "0 < d") (simp_all add: Truncate_eq_mult, simp add: Truncate_def)

lemma Truncate_aligned: "0 < d \<Longrightarrow> t mod d = 0 \<Longrightarrow> Truncate t d = t"
  by (simp add: Truncate_def)

lemma Truncate_gt: "0 < d \<Longrightarrow> t - d < Truncate t d"
  using pos_mod_bound [of d t] by (simp add: Truncate_def)

section \<open>Properties of the grouping\<close>

lemma groupAppsBySpace_loop_at:
  "groupAppsBySpace_loop apps grouped k =
     (if filter (\<lambda>a. App.SpaceGuid a = k) apps = [] then grouped k
      else Some (index grouped k @ filter (\<lambda>a. App.SpaceGuid a = k) apps))"
proof (induction apps arbitrary: grouped)
  case Nil
  show ?case by simp
next
  case (Cons app apps)
  show ?case
    by (cases "grouped (App.SpaceGuid app)")
       (auto simp: Cons.IH index_def Let_def)
qed

lemma groupInstancesBySpace_loop_at:
  "groupInstancesBySpace_loop instances grouped k =
     (if filter (\<lambda>i. ServiceInstance.SpaceGuid i = k) instances = [] then grouped k
      else Some (index grouped k @ filter (\<lambda>i. ServiceInstance.SpaceGuid i = k) instances))"
proof (induction instances arbitrary: grouped)
  case Nil
  show ?case by simp
next
  case (Cons i rest)
  show ?case
    by (cases "grouped (ServiceInstance.SpaceGuid i)")
       (auto simp: Cons.IH index_def Let_def)
qed

lemma groupAppsBySpace_at:
  "groupAppsBySpace apps k =
     (if k \<in> App.SpaceGuid ` set apps
      then Some (filter (\<lambda>a. App.SpaceGuid a = k) apps) else None)"
  by (auto simp: groupAppsBySpace_def groupAppsBySpace_loop_at index_def filter_empty_conv)

lemma groupInstancesBySpace_at:
  "groupInstancesBySpace instances k =
     (if k \<in> ServiceInstance.SpaceGuid ` set instances
      then Some (filter (\<lambda>i. ServiceInstance.SpaceGuid i = k) instances) else None)"
  by (auto simp: groupInstancesBySpace_def groupInstancesBySpace_loop_at index_def
        filter_empty_conv)

lemma index_groupAppsBySpace:
  "index (groupAppsBySpace apps) k = filter (\<lambda>a. App.SpaceGuid a = k) apps"
proof (cases "k \<in> App.SpaceGuid ` set apps")
  case True
  then show ?thesis by (simp add: index_def groupAppsBySpace_at)
next
  case False
  then have "filter (\<lambda>a. App.SpaceGuid a = k) apps = []"
    by (auto simp: filter_empty_conv)
  with False show ?thesis by (simp add: index_def groupAppsBySpace_at)
qed

lemma index_groupInstancesBySpace:
  "index (groupInstancesBySpace instances) k =
     filter (\<lambda>i. ServiceInstance.SpaceGuid i = k) instances"
proof (cases "k \<in> ServiceInstance.SpaceGuid ` set instances")
  case True
  then show ?thesis by (simp add: index_def groupInstancesBySpace_at)
next
  case False
  then have "filter (\<lambda>i. ServiceInstance.SpaceGuid i = k) instances = []"
    by (auto simp: filter_empty_conv)
  with False show ?thesis by (simp add: index_def groupInstancesBySpace_at)
qed

lemma dom_groupAppsBySpace: "dom (groupAppsBySpace apps) = App.SpaceGuid ` set apps"
  by (auto simp: dom_def groupAppsBySpace_at)

lemma dom_groupInstancesBySpace:
  "dom (groupInstancesBySpace instances) = ServiceInstance.SpaceGuid ` set instances"
  by (auto simp: dom_def groupInstancesBySpace_at)

text \<open>
  Splitting a list by the value of a key and putting the classes together again gives
  the list back, as a multiset: nothing is lost and nothing is counted twice.
\<close>

lemma mset_classes:
  "(\<Sum>k \<in> f ` set xs. mset (filter (\<lambda>x. f x = k) xs)) = mset xs"
proof (rule multiset_eqI)
  fix a
  have "count (\<Sum>k \<in> f ` set xs. mset (filter (\<lambda>x. f x = k) xs)) a =
        (\<Sum>k \<in> f ` set xs. if f a = k then count (mset xs) a else 0)"
    by (simp add: count_sum)
  also have "\<dots> = (if f a \<in> f ` set xs then count (mset xs) a else 0)"
    by (simp add: sum.delta)
  also have "\<dots> = count (mset xs) a"
    by (auto simp: count_eq_zero_iff)
  finally show "count (\<Sum>k \<in> f ` set xs. mset (filter (\<lambda>x. f x = k) xs)) a = count (mset xs) a" .
qed

section \<open>Properties of the classification\<close>

lemma GetFirstResource_apps_ok:
  "snd (GetFirstResource_apps parse xs f) = None \<longleftrightarrow>
     (\<forall>a \<in> set xs. \<exists>t. parse (App.CreatedAt a) = Inr t)"
  by (induction xs arbitrary: f) (auto split: sum.splits)

lemma GetFirstResource_instances_ok:
  "snd (GetFirstResource_instances parse xs f) = None \<longleftrightarrow>
     (\<forall>i \<in> set xs. \<exists>t. parse (ServiceInstance.CreatedAt i) = Inr t)"
  by (induction xs arbitrary: f) (auto split: sum.splits)

lemma GetFirstResource_unfold:
  "GetFirstResource parse space apps instances =
     (case GetFirstResource_apps parse
             (filter (\<lambda>a. App.SpaceGuid a = Space.Guid space) apps) zeroTime of
        (firstResource, Some err) \<Rightarrow> (firstResource, Some err)
      | (firstResource, None) \<Rightarrow>
          GetFirstResource_instances parse
            (filter (\<lambda>i. ServiceInstance.SpaceGuid i = Space.Guid space) instances)
            firstResource)"
  by (simp add: GetFirstResource_def index_groupAppsBySpace index_groupInstancesBySpace)

lemma GetFirstResource_ok:
  "snd (GetFirstResource parse space apps instances) = None \<longleftrightarrow>
     (\<forall>a \<in> set apps. App.SpaceGuid a = Space.Guid space \<longrightarrow>
        (\<exists>t. parse (App.CreatedAt a) = Inr t)) \<and>
     (\<forall>i \<in> set instances. ServiceInstance.SpaceGuid i = Space.Guid space \<longrightarrow>
        (\<exists>t. parse (ServiceInstance.CreatedAt i) = Inr t))"
proof -
  let ?xs = "filter (\<lambda>a. App.SpaceGuid a = Space.Guid space) apps"
  let ?ys = "filter (\<lambda>i. ServiceInstance.SpaceGuid i = Space.Guid space) instances"
  obtain f e where A: "GetFirstResource_apps parse ?xs zeroTime = (f, e)"
    by (cases "GetFirstResource_apps parse ?xs zeroTime")
  show ?thesis
  proof (cases e)
    case None
    with A have "snd (GetFirstResource parse space apps instances) =
        snd (GetFirstResource_instances parse ?ys f)"
      by (simp add: GetFirstResource_unfold)
    moreover from A None have "\<forall>a \<in> set ?xs. \<exists>t. parse (App.CreatedAt a) = Inr t"
      using GetFirstResource_apps_ok [of parse ?xs zeroTime] by simp
    ultimately show ?thesis
      using GetFirstResource_instances_ok [of parse ?ys f] by auto
  next
    case (Some err)
    with A have "snd (GetFirstResource parse space apps instances) \<noteq> None"
      by (simp add: GetFirstResource_unfold)
    moreover from A Some have "\<not> (\<forall>a \<in> set ?xs. \<exists>t. parse (App.CreatedAt a) = Inr t)"
      using GetFirstResource_apps_ok [of parse ?xs zeroTime] by simp
    ultimately show ?thesis by auto
  qed
qed

lemma GetFirstResource_no_resources:
  assumes "\<forall>a \<in> set apps. App.SpaceGuid a \<noteq> Space.Guid space"
    and "\<forall>i \<in> set instances. ServiceInstance.SpaceGuid i \<noteq> Space.Guid space"
  shows "GetFirstResource parse space apps instances = (zeroTime, None)"
proof -
  have "filter (\<lambda>a. App.SpaceGuid a = Space.Guid space) apps = []"
    using assms(1) by (simp add: filter_empty_conv)
  moreover have "filter (\<lambda>i. ServiceInstance.SpaceGuid i = Space.Guid space) instances = []"
    using assms(2) by (simp add: filter_empty_conv)
  ultimately show ?thesis by (simp add: GetFirstResource_unfold)
qed

lemma ListPurgeSpaces_loop_eq:
  "ListPurgeSpaces_loop parse spaces apps instances now notifyThreshold purgeThreshold
     timeStartsAt toNotify toPurge =
   (toNotify @ map (details parse apps instances timeStartsAt)
      (filter (notified parse apps instances now notifyThreshold purgeThreshold timeStartsAt)
         (reached parse apps instances spaces)),
    toPurge @ map (details parse apps instances timeStartsAt)
      (filter (purged parse apps instances now purgeThreshold timeStartsAt)
         (reached parse apps instances spaces)),
    case dropWhile (\<lambda>s. snd (GetFirstResource parse s apps instances) = None) spaces of
      [] \<Rightarrow> None
    | s # _ \<Rightarrow> snd (GetFirstResource parse s apps instances))"
proof (induction spaces arbitrary: toNotify toPurge)
  case Nil
  show ?case by (simp add: reached_def)
next
  case (Cons space spaces)
  obtain t e where G: "GetFirstResource parse space apps instances = (t, e)"
    by (cases "GetFirstResource parse space apps instances")
  show ?case
  proof (cases e)
    case (Some err)
    with G show ?thesis by (simp add: reached_def)
  next
    case None
    with G show ?thesis
      by (simp add: Cons.IH reached_def details_def purged_def notified_def anchor_def
          delta_def Let_def)
  qed
qed

lemma ListPurgeSpaces_eq:
  "ListPurgeSpaces parse spaces apps instances now notifyThreshold purgeThreshold timeStartsAt =
   (map (details parse apps instances timeStartsAt)
      (filter (notified parse apps instances now notifyThreshold purgeThreshold timeStartsAt)
         (reached parse apps instances spaces)),
    map (details parse apps instances timeStartsAt)
      (filter (purged parse apps instances now purgeThreshold timeStartsAt)
         (reached parse apps instances spaces)),
    case dropWhile (\<lambda>s. snd (GetFirstResource parse s apps instances) = None) spaces of
      [] \<Rightarrow> None
    | s # _ \<Rightarrow> snd (GetFirstResource parse s apps instances))"
  by (simp add: ListPurgeSpaces_def ListPurgeSpaces_loop_eq)


lemma Hour_day_pos: "0 < 24 * Hour"
  by (simp add: Hour_def)

lemma anchor_ge: "Truncate timeStartsAt (24 * Hour) \<le> anchor timeStartsAt t"
  unfolding anchor_def by (rule Truncate_mono) (simp add: After_def)

lemma anchor_idem: "Truncate (anchor timeStartsAt t) (24 * Hour) = anchor timeStartsAt t"
  unfolding anchor_def by (rule Truncate_idem)

text \<open>The anchor is a multiple of 24 hours since the zero Time.\<close>

lemma anchor_mod: "anchor timeStartsAt t mod (24 * Hour) = 0"
  unfolding anchor_def by (simp add: Truncate_eq_mult [OF Hour_day_pos])


text \<open>The entries of the two results, one by one.\<close>

lemma in_toNotify:
  assumes "ListPurgeSpaces parse spaces apps instances now notifyThreshold purgeThreshold
             timeStartsAt = (toNotify, toPurge, err)"
  shows "e \<in> set toNotify \<longleftrightarrow>
     (\<exists>s \<in> set (reached parse apps instances spaces).
        notified parse apps instances now notifyThreshold purgeThreshold timeStartsAt s \<and>
        e = details parse apps instances timeStartsAt s)"
  using assms by (auto simp: ListPurgeSpaces_eq)

lemma in_toPurge:
  assumes "ListPurgeSpaces parse spaces apps instances now notifyThreshold purgeThreshold
             timeStartsAt = (toNotify, toPurge, err)"
  shows "e \<in> set toPurge \<longleftrightarrow>
     (\<exists>s \<in> set (reached parse apps instances spaces).
        purged parse apps instances now purgeThreshold timeStartsAt s \<and>
        e = details parse apps instances timeStartsAt s)"
  using assms by (auto simp: ListPurgeSpaces_eq)


lemma Timestamp_details [simp]:
  "Timestamp (details parse apps instances timeStartsAt s) =
     anchor timeStartsAt (fst (GetFirstResource parse s apps instances))"
  by (simp add: details_def)

lemma Space_details [simp]: "Space (details parse apps instances timeStartsAt s) = s"
  by (simp add: details_def)

text \<open>The update of \<^verbatim>\<open>firstResource\<close> in the two loops, and what folding it computes.\<close>

lemma GetFirstResource_apps_parsed:
  "map (parse \<circ> App.CreatedAt) xs = map Inr ts \<Longrightarrow>
   GetFirstResource_apps parse xs f =
     (foldl (\<lambda>f c. if IsZero f \<or> Before c f then c else f) f ts, None)"
proof (induction xs arbitrary: f ts)
  case Nil
  then show ?case by simp
next
  case (Cons x xs)
  then obtain t ts' where "ts = t # ts'" by (cases ts) auto
  with Cons show ?case by auto
qed

lemma GetFirstResource_instances_parsed:
  "map (parse \<circ> ServiceInstance.CreatedAt) xs = map Inr ts \<Longrightarrow>
   GetFirstResource_instances parse xs f =
     (foldl (\<lambda>f c. if IsZero f \<or> Before c f then c else f) f ts, None)"
proof (induction xs arbitrary: f ts)
  case Nil
  then show ?case by simp
next
  case (Cons x xs)
  then obtain t ts' where "ts = t # ts'" by (cases ts) auto
  with Cons show ?case by auto
qed

lemma foldl_pick_nonzero:
  "\<not> IsZero f \<Longrightarrow> \<forall>t \<in> set ts. \<not> IsZero t \<Longrightarrow>
   foldl (\<lambda>f c. if IsZero f \<or> Before c f then c else f) f ts = Min (insert f (set ts))"
proof (induction ts arbitrary: f)
  case Nil
  show ?case by simp
next
  case (Cons t ts)
  have "Min (insert f (set (t # ts))) = Min (insert (min t f) (set ts))"
  proof (cases "set ts = {}")
    case True
    then show ?thesis by (simp add: min.commute)
  next
    case False
    then show ?thesis by (simp add: min.commute min.assoc)
  qed
  moreover have "(if IsZero f \<or> Before t f then t else f) = min t f"
    using Cons.prems(1) by (auto simp: Before_def min_def)
  moreover have "\<not> IsZero (min t f)" using Cons.prems by (simp add: min_def)
  ultimately show ?case using Cons.IH [of "min t f"] Cons.prems(2) by simp
qed

lemma foldl_pick_zero:
  assumes "\<forall>t \<in> set ts. \<not> IsZero t"
  shows "foldl (\<lambda>f c. if IsZero f \<or> Before c f then c else f) zeroTime ts =
           (if ts = [] then zeroTime else Min (set ts))"
proof (cases ts)
  case Nil
  then show ?thesis by simp
next
  case (Cons t ts')
  with assms have "\<not> IsZero t" "\<forall>t \<in> set ts'. \<not> IsZero t" by simp_all
  then show ?thesis
    using Cons foldl_pick_nonzero [of t ts'] by (simp add: IsZero_def zeroTime_def)
qed




lemma reached_reached:
  "reached parse apps instances (reached parse apps instances spaces) =
     reached parse apps instances spaces"
  by (simp add: reached_def)

lemma logged_simps [simp]:
  "DeleteSpace (logged client) guid recursive async (w, calls) =
     (case DeleteSpace client guid recursive async w of
        (r, w') \<Rightarrow> (r, (w', calls @ [DeleteSpaceCall guid recursive async])))"
  "ListAppsByQuery (logged client) query (w, calls) =
     (case ListAppsByQuery client query w of
        (r, w') \<Rightarrow> (r, (w', calls @ [ListAppsByQueryCall query])))"
  "DeleteApp (logged client) guid (w, calls) =
     (case DeleteApp client guid w of (r, w') \<Rightarrow> (r, (w', calls @ [DeleteAppCall guid])))"
  by (simp_all add: logged_def)

lemma deletions_succeed_Nil: "deletions_succeed client [] ws \<longleftrightarrow> length ws = 1"
  by (simp add: deletions_succeed_def)

lemma deletions_succeed_Cons:
  "deletions_succeed client (app # apps) ws \<longleftrightarrow>
     (\<exists>w ws'. ws = w # ws' \<and> DeleteApp client (App.Guid app) w = (None, ws' ! 0) \<and>
        deletions_succeed client apps ws')"
proof
  assume h: "deletions_succeed client (app # apps) ws"
  then obtain w ws' where ws: "ws = w # ws'" by (cases ws) (auto simp: deletions_succeed_def)
  from h have all: "\<And>i. i < Suc (length apps) \<Longrightarrow>
      DeleteApp client (App.Guid ((app # apps) ! i)) (ws ! i) = (None, ws ! Suc i)"
    and len: "length ws' = Suc (length apps)"
    by (simp_all add: deletions_succeed_def ws)
  have "DeleteApp client (App.Guid app) w = (None, ws' ! 0)"
    using all [of 0] by (simp add: ws)
  moreover have "deletions_succeed client apps ws'"
    unfolding deletions_succeed_def
  proof (intro conjI allI impI)
    show "length ws' = Suc (length apps)" by fact
    fix i assume "i < length apps"
    then show "DeleteApp client (App.Guid (apps ! i)) (ws' ! i) = (None, ws' ! Suc i)"
      using all [of "Suc i"] by (simp add: ws)
  qed
  ultimately show "\<exists>w ws'. ws = w # ws' \<and>
      DeleteApp client (App.Guid app) w = (None, ws' ! 0) \<and> deletions_succeed client apps ws'"
    using ws by blast
next
  assume "\<exists>w ws'. ws = w # ws' \<and> DeleteApp client (App.Guid app) w = (None, ws' ! 0) \<and>
      deletions_succeed client apps ws'"
  then obtain w ws' where ws: "ws = w # ws'"
    and d: "DeleteApp client (App.Guid app) w = (None, ws' ! 0)"
    and r: "deletions_succeed client apps ws'" by blast
  show "deletions_succeed client (app # apps) ws"
    unfolding deletions_succeed_def
  proof (intro conjI allI impI)
    show "length ws = Suc (length (app # apps))" using r by (simp add: ws deletions_succeed_def)
    fix i assume "i < length (app # apps)"
    then show "DeleteApp client (App.Guid ((app # apps) ! i)) (ws ! i) = (None, ws ! Suc i)"
      using d r by (cases i) (simp_all add: ws deletions_succeed_def)
  qed
qed

lemma PurgeSpace_apps_succeed:
  "deletions_succeed client apps ws \<Longrightarrow>
   PurgeSpace_apps (logged client) apps (ws ! 0, calls) =
     (None, (last ws, calls @ map (DeleteAppCall \<circ> App.Guid) apps))"
proof (induction apps arbitrary: ws calls)
  case Nil
  then obtain w where "ws = [w]" by (cases ws) (auto simp: deletions_succeed_Nil)
  then show ?case by simp
next
  case (Cons app apps)
  then obtain w ws' where ws: "ws = w # ws'"
    and d: "DeleteApp client (App.Guid app) w = (None, ws' ! 0)"
    and r: "deletions_succeed client apps ws'"
    by (auto simp: deletions_succeed_Cons)
  from r have "ws' \<noteq> []" by (auto simp: deletions_succeed_def)
  then show ?case using Cons.IH [OF r] d by (simp add: ws)
qed

lemma PurgeSpace_apps_failure:
  "deletions_succeed client pre ws \<Longrightarrow>
   DeleteApp client (App.Guid app) (last ws) = (Some e, w') \<Longrightarrow>
   PurgeSpace_apps (logged client) (pre @ app # post) (ws ! 0, calls) =
     (Some e, (w', calls @ map (DeleteAppCall \<circ> App.Guid) pre @ [DeleteAppCall (App.Guid app)]))"
proof (induction pre arbitrary: ws calls)
  case Nil
  then obtain w where "ws = [w]" by (cases ws) (auto simp: deletions_succeed_Nil)
  with Nil show ?case by simp
next
  case (Cons a pre)
  then obtain w ws' where ws: "ws = w # ws'"
    and d: "DeleteApp client (App.Guid a) w = (None, ws' ! 0)"
    and r: "deletions_succeed client pre ws'"
    by (auto simp: deletions_succeed_Cons)
  from r have ne: "ws' \<noteq> []" by (auto simp: deletions_succeed_def)
  with Cons.prems(2) have "DeleteApp client (App.Guid app) (last ws') = (Some e, w')"
    by (simp add: ws)
  from Cons.IH [OF r this] d show ?case by (simp add: ws)
qed

lemma PurgeSpace_apps_logged:
  "\<exists>calls'. PurgeSpace_apps (logged client) apps (w, calls) =
     (fst (PurgeSpace_apps client apps w), snd (PurgeSpace_apps client apps w), calls')"
proof (induction apps arbitrary: w calls)
  case Nil
  show ?case by simp
next
  case (Cons app apps)
  obtain r w' where d: "DeleteApp client (App.Guid app) w = (r, w')"
    by (cases "DeleteApp client (App.Guid app) w")
  show ?case
  proof (cases r)
    case None
    with d Cons.IH [of w' "calls @ [DeleteAppCall (App.Guid app)]"] show ?thesis by simp
  next
    case (Some e)
    with d show ?thesis by simp
  qed
qed

lemma PurgeSpace_logged:
  "\<exists>calls. PurgeSpace (logged client) space (w, []) =
     (fst (PurgeSpace client space w), snd (PurgeSpace client space w), calls)"
proof -
  obtain r w1 where ds: "DeleteSpace client (Space.Guid space) True False w = (r, w1)"
    by (cases "DeleteSpace client (Space.Guid space) True False w")
  show ?thesis
  proof (cases r)
    case None
    with ds show ?thesis by (simp add: PurgeSpace_def)
  next
    case (Some spaceErr)
    obtain l w2 where la: "ListAppsByQuery client
        (spaceQuery space) w1 = (l, w2)"
      by (cases "ListAppsByQuery client (spaceQuery space) w1")
    show ?thesis
    proof (cases l)
      case (Inl e)
      with ds Some la show ?thesis by (simp add: PurgeSpace_def)
    next
      case (Inr apps)
      obtain calls' where "PurgeSpace_apps (logged client) apps
          (w2, [DeleteSpaceCall (Space.Guid space) True False,
                ListAppsByQueryCall (spaceQuery space)]) =
          (fst (PurgeSpace_apps client apps w2), snd (PurgeSpace_apps client apps w2), calls')"
        using PurgeSpace_apps_logged [of client apps w2
            "[DeleteSpaceCall (Space.Guid space) True False,
              ListAppsByQueryCall (spaceQuery space)]"]
        by (elim exE)
      with ds Some la Inr show ?thesis
        by (cases "PurgeSpace_apps client apps w2"; cases "fst (PurgeSpace_apps client apps w2)")
           (simp_all add: PurgeSpace_def)
    qed
  qed
qed

section \<open>Concrete runs\<close>

text \<open>
  The model evaluated on the sandbox organization. Instants are written with \<open>Date\<close>;
  \<open>dates\<close> gives their numbers.
\<close>

lemma dates:
  "Date 2016 1 1 0 0 0 0 = 63587203200000000000"
  "Date 2017 1 1 0 0 0 0 = 63618825600000000000"
  "Date 2017 1 1 4 0 0 0 = 63618840000000000000"
  "Date 2017 1 1 8 30 0 0 = 63618856200000000000"
  "Date 2017 1 5 0 0 0 0 = 63619171200000000000"
  "Date 2017 1 5 12 0 0 0 = 63619214400000000000"
  "Date 2017 1 11 0 0 0 0 = 63619689600000000000"
  "Date 2017 1 21 0 0 0 0 = 63620553600000000000"
  by code_simp+

lemma guids:
  "Space.Guid spaceA = ''guid-a''" "Space.Guid spaceB = ''guid-b''"
  "Space.Guid spaceC = ''guid-c''" "Space.Guid spaceD = ''guid-d''"
  "App.SpaceGuid appA = ''guid-a''" "App.SpaceGuid appA_midnight = ''guid-a''"
  "App.SpaceGuid appA_year1 = ''guid-a''" "App.SpaceGuid appD = ''guid-d''"
  "ServiceInstance.SpaceGuid instanceA = ''guid-a''"
  "ServiceInstance.SpaceGuid instanceB = ''guid-b''"
  "ServiceInstance.SpaceGuid instanceB_malformed = ''guid-b''"
  "App.Guid appA = ''app-a''" "App.Guid appA_midnight = ''app-a-midnight''"
  by (simp_all add: spaceA_def spaceB_def spaceC_def spaceD_def appA_def appA_midnight_def
      appA_year1_def appD_def instanceA_def instanceB_def instanceB_malformed_def)

text \<open>
  Thresholds of 7 and 14 days, \<^verbatim>\<open>timeStartsAt\<close> on January 1, 2016, \<^verbatim>\<open>now\<close> on January
  21, 2017: \<open>spaceA\<close> (first resource on January 1, 08:30) is 20 days old and is purged,
  \<open>spaceB\<close> (January 11, 12:00) is 10 days old and is notified, \<open>spaceC\<close> is empty and
  \<open>spaceD\<close> (January 19) is 2 days old.
\<close>

lemma run_scenario:
  "ListPurgeSpaces Parse [spaceA, spaceB, spaceC, spaceD] [appA, appD] [instanceB]
     (Date 2017 1 21 0 0 0 0) 7 14 (Date 2016 1 1 0 0 0 0) =
   ([\<lparr>Timestamp = Date 2017 1 11 0 0 0 0, Space = spaceB\<rparr>],
    [\<lparr>Timestamp = Date 2017 1 1 0 0 0 0, Space = spaceA\<rparr>], None)"
  by code_simp

text \<open>Three days later \<open>spaceB\<close> is 13 days old, and one day after that 14 days.\<close>

lemma run_day_before:
  "ListPurgeSpaces Parse [spaceA, spaceB, spaceC, spaceD] [appA, appD] [instanceB]
     (Date 2017 1 24 0 0 0 0) 7 14 (Date 2016 1 1 0 0 0 0) =
   ([\<lparr>Timestamp = Date 2017 1 11 0 0 0 0, Space = spaceB\<rparr>],
    [\<lparr>Timestamp = Date 2017 1 1 0 0 0 0, Space = spaceA\<rparr>], None)"
  by code_simp

lemma run_day_after:
  "ListPurgeSpaces Parse [spaceA, spaceB, spaceC, spaceD] [appA, appD] [instanceB]
     (Date 2017 1 24 0 0 0 0 + 24 * Hour) 7 14 (Date 2016 1 1 0 0 0 0) =
   ([],
    [\<lparr>Timestamp = Date 2017 1 1 0 0 0 0, Space = spaceA\<rparr>,
     \<lparr>Timestamp = Date 2017 1 11 0 0 0 0, Space = spaceB\<rparr>], None)"
  by code_simp

text \<open>The service instance of \<open>spaceB\<close> with a timestamp that does not parse.\<close>

lemma run_malformed:
  "ListPurgeSpaces Parse [spaceA, spaceB, spaceC, spaceD] [appA, appD] [instanceB_malformed]
     (Date 2017 1 21 0 0 0 0) 7 14 (Date 2016 1 1 0 0 0 0) =
   ([], [\<lparr>Timestamp = Date 2017 1 1 0 0 0 0, Space = spaceA\<rparr>],
    Some (ParseError ''yesterday''))"
  by code_simp

lemma run_malformed_prefix:
  "takeWhile (\<lambda>s. snd (GetFirstResource Parse s [appA, appD] [instanceB_malformed]) = None)
     [spaceA, spaceB, spaceC, spaceD] = [spaceA]"
  "ListPurgeSpaces Parse [spaceA] [appA, appD] [instanceB_malformed]
     (Date 2017 1 21 0 0 0 0) 7 14 (Date 2016 1 1 0 0 0 0) =
   ([], [\<lparr>Timestamp = Date 2017 1 1 0 0 0 0, Space = spaceA\<rparr>], None)"
  "isl (Parse (ServiceInstance.CreatedAt instanceB_malformed))"
  by code_simp+

text \<open>\<^verbatim>\<open>timeStartsAt\<close> at noon of January 5, 2017, after the app of \<open>spaceA\<close> was created.\<close>

lemma run_floor_midday:
  "ListPurgeSpaces Parse [spaceA] [appA] [] (Date 2017 1 21 0 0 0 0) 7 14
     (Date 2017 1 5 12 0 0 0) =
   ([], [\<lparr>Timestamp = Date 2017 1 5 0 0 0 0, Space = spaceA\<rparr>], None)"
  by code_simp





lemma first_year1:
  "Parse (App.CreatedAt appA_year1) = Inr zeroTime"
  "GetFirstResource Parse spaceA [appA_year1] [] = (zeroTime, None)"
  "GetFirstResource Parse spaceA [appA_year1, appA] [] = (Date 2017 1 1 8 30 0 0, None)"
  by code_simp+

lemma parsed_spaceA:
  "map (Parse \<circ> App.CreatedAt)
     (filter (\<lambda>a. App.SpaceGuid a = Space.Guid spaceA) [appA, appD, appA_midnight]) =
   map Inr [Date 2017 1 1 8 30 0 0, Date 2017 1 5 0 0 0 0]"
  "map (Parse \<circ> ServiceInstance.CreatedAt)
     (filter (\<lambda>i. ServiceInstance.SpaceGuid i = Space.Guid spaceA) [instanceA, instanceB]) =
   map Inr [Date 2017 1 1 4 0 0 0]"
  by code_simp+

lemma deltas:
  "delta (Date 2017 1 21 0 0 0 0) (anchor (Date 2016 1 1 0 0 0 0) (Date 2017 1 1 8 30 0 0)) = 20"
  "delta (Date 2017 1 21 0 0 0 0) (Truncate (Date 2017 1 5 12 0 0 0) (24 * Hour)) = 16"
  "Truncate (Date 2017 1 5 12 0 0 0) (24 * Hour) = Date 2017 1 5 0 0 0 0"
  "Truncate (Date 2017 1 1 0 0 0 0) (24 * Hour) = Date 2017 1 1 0 0 0 0"
  "Truncate (Date 2017 1 11 0 0 0 0) (24 * Hour) = Date 2017 1 11 0 0 0 0"
  "Date 2016 1 1 0 0 0 0 mod (24 * Hour) = 0"
  by code_simp+

section \<open>The claims\<close>

subsection \<open>C1: the anchor and the epoch floor\<close>

text \<open>
  Claim C1, as it holds. For every space that \<^verbatim>\<open>ListPurgeSpaces\<close> places in \<^verbatim>\<open>toNotify\<close> or
  \<^verbatim>\<open>toPurge\<close>, the recorded anchor is never earlier than \<^verbatim>\<open>timeStartsAt\<close> truncated to 24
  hours: it is less than 24 hours before \<^verbatim>\<open>timeStartsAt\<close>, and it is not before
  \<^verbatim>\<open>timeStartsAt\<close> when \<^verbatim>\<open>timeStartsAt\<close> is itself a multiple of 24 hours. (The code clamps
  to \<^verbatim>\<open>timeStartsAt\<close> and then truncates, and the truncation can step back below a floor
  that is not on a 24-hour boundary.)
\<close>

theorem anchor_not_before_truncated_floor:
  assumes "ListPurgeSpaces parse spaces apps instances now notifyThreshold purgeThreshold
             timeStartsAt = (toNotify, toPurge, err)"
  shows "\<forall>e \<in> set toNotify \<union> set toPurge.
           Truncate timeStartsAt (24 * Hour) \<le> Timestamp e \<and>
           timeStartsAt - 24 * Hour < Timestamp e \<and>
           (timeStartsAt mod (24 * Hour) = 0 \<longrightarrow> timeStartsAt \<le> Timestamp e)"
proof
  fix e assume "e \<in> set toNotify \<union> set toPurge"
  then obtain s where "e = details parse apps instances timeStartsAt s"
    using in_toNotify [OF assms] in_toPurge [OF assms] by auto
  then have 1: "Truncate timeStartsAt (24 * Hour) \<le> Timestamp e" by (simp add: anchor_ge)
  moreover have "timeStartsAt - 24 * Hour < Truncate timeStartsAt (24 * Hour)"
    using Hour_day_pos by (rule Truncate_gt)
  moreover have "timeStartsAt mod (24 * Hour) = 0 \<Longrightarrow>
      Truncate timeStartsAt (24 * Hour) = timeStartsAt"
    using Hour_day_pos by (rule Truncate_aligned)
  ultimately show "Truncate timeStartsAt (24 * Hour) \<le> Timestamp e \<and>
           timeStartsAt - 24 * Hour < Timestamp e \<and>
           (timeStartsAt mod (24 * Hour) = 0 \<longrightarrow> timeStartsAt \<le> Timestamp e)"
    by auto
qed

theorem anchor_not_before_truncated_floor_witness:
  "Truncate (Date 2017 1 5 12 0 0 0) (24 * Hour) \<le> Date 2017 1 5 0 0 0 0 \<and>
   Date 2017 1 5 12 0 0 0 - 24 * Hour < Date 2017 1 5 0 0 0 0 \<and>
   Date 2016 1 1 0 0 0 0 mod (24 * Hour) = 0 \<and>
   Date 2016 1 1 0 0 0 0 \<le> Date 2017 1 11 0 0 0 0 \<and>
   Date 2016 1 1 0 0 0 0 \<le> Date 2017 1 1 0 0 0 0"
  using anchor_not_before_truncated_floor [OF run_floor_midday]
    anchor_not_before_truncated_floor [OF run_scenario] deltas(6)
  by simp

text \<open>
  The claim as written fails: with \<^verbatim>\<open>timeStartsAt\<close> at noon of January 5, 2017 and an app
  created on January 1, \<open>spaceA\<close> is put in \<^verbatim>\<open>toPurge\<close> with the anchor January 5, 00:00,
  which is twelve hours before \<^verbatim>\<open>timeStartsAt\<close>.
\<close>

theorem anchor_before_timeStartsAt_counterexample:
  "ListPurgeSpaces Parse [spaceA] [appA] [] (Date 2017 1 21 0 0 0 0) 7 14
     (Date 2017 1 5 12 0 0 0) =
     ([], [\<lparr>Timestamp = Date 2017 1 5 0 0 0 0, Space = spaceA\<rparr>], None) \<and>
   Date 2017 1 5 0 0 0 0 < Date 2017 1 5 12 0 0 0"
  using run_floor_midday by (simp add: dates)

subsection \<open>C2: a timestamp that does not parse\<close>

text \<open>
  Claim C2, as it holds. For every input in which a listed space has a resource whose
  creation timestamp does not parse, \<^verbatim>\<open>ListPurgeSpaces\<close> fails with an error, and
  \<^verbatim>\<open>toNotify\<close> and \<^verbatim>\<open>toPurge\<close> are what it returns, without an error, for the spaces listed
  before the first space on which \<^verbatim>\<open>GetFirstResource\<close> fails; the space with the
  unparsable resource is not among them. (The two results need not be empty: the bare
  \<^verbatim>\<open>return\<close> hands back what the loop has appended so far.)
\<close>

theorem malformed_timestamp_aborts:
  assumes "s \<in> set spaces"
    and "(\<exists>a \<in> set apps. App.SpaceGuid a = Space.Guid s \<and> isl (parse (App.CreatedAt a))) \<or>
         (\<exists>i \<in> set instances. ServiceInstance.SpaceGuid i = Space.Guid s \<and>
            isl (parse (ServiceInstance.CreatedAt i)))"
    and "ListPurgeSpaces parse spaces apps instances now notifyThreshold purgeThreshold
           timeStartsAt = (toNotify, toPurge, err)"
  shows "err \<noteq> None \<and>
         ListPurgeSpaces parse
           (takeWhile (\<lambda>s. snd (GetFirstResource parse s apps instances) = None) spaces)
           apps instances now notifyThreshold purgeThreshold timeStartsAt
           = (toNotify, toPurge, None) \<and>
         s \<notin> set (takeWhile (\<lambda>s. snd (GetFirstResource parse s apps instances) = None) spaces)"
proof -
  let ?P = "\<lambda>s. snd (GetFirstResource parse s apps instances) = None"
  have bad: "\<not> ?P s" using assms(2) by (auto simp: GetFirstResource_ok isl_def)
  then have notin: "s \<notin> set (takeWhile ?P spaces)" by (auto dest: set_takeWhileD)
  obtain s' rest where D: "dropWhile ?P spaces = s' # rest"
    using assms(1) bad by (cases "dropWhile ?P spaces") (auto simp: dropWhile_eq_Nil_conv)
  then have "\<not> ?P s'" using hd_dropWhile [of ?P spaces] by auto
  with D assms(3) have e: "err \<noteq> None" by (auto simp: ListPurgeSpaces_eq)
  have dd: "dropWhile ?P (takeWhile ?P spaces) = []"
    unfolding dropWhile_eq_Nil_conv by (blast dest: set_takeWhileD)
  have tt: "takeWhile ?P (takeWhile ?P spaces) = takeWhile ?P spaces" by simp
  from assms(3) have N: "toNotify = map (details parse apps instances timeStartsAt)
      (filter (notified parse apps instances now notifyThreshold purgeThreshold timeStartsAt)
         (takeWhile ?P spaces))"
    and P: "toPurge = map (details parse apps instances timeStartsAt)
      (filter (purged parse apps instances now purgeThreshold timeStartsAt)
         (takeWhile ?P spaces))"
    by (simp_all add: ListPurgeSpaces_eq reached_def)
  have "ListPurgeSpaces parse (takeWhile ?P spaces) apps instances now notifyThreshold
      purgeThreshold timeStartsAt = (toNotify, toPurge, None)"
    unfolding ListPurgeSpaces_eq reached_def tt dd N P by simp
  with e notin show ?thesis by simp
qed

theorem malformed_timestamp_aborts_witness:
  "Some (ParseError ''yesterday'') \<noteq> None \<and>
   ListPurgeSpaces Parse
     (takeWhile (\<lambda>s. snd (GetFirstResource Parse s [appA, appD] [instanceB_malformed]) = None)
        [spaceA, spaceB, spaceC, spaceD])
     [appA, appD] [instanceB_malformed] (Date 2017 1 21 0 0 0 0) 7 14 (Date 2016 1 1 0 0 0 0) =
     ([], [\<lparr>Timestamp = Date 2017 1 1 0 0 0 0, Space = spaceA\<rparr>], None) \<and>
   spaceB \<notin> set (takeWhile
     (\<lambda>s. snd (GetFirstResource Parse s [appA, appD] [instanceB_malformed]) = None)
     [spaceA, spaceB, spaceC, spaceD])"
proof -
  have 1: "spaceB \<in> set [spaceA, spaceB, spaceC, spaceD]" by simp
  have 2: "(\<exists>a \<in> set [appA, appD]. App.SpaceGuid a = Space.Guid spaceB \<and>
              isl (Parse (App.CreatedAt a))) \<or>
           (\<exists>i \<in> set [instanceB_malformed]. ServiceInstance.SpaceGuid i = Space.Guid spaceB \<and>
              isl (Parse (ServiceInstance.CreatedAt i)))"
    by (simp add: guids run_malformed_prefix(3))
  show ?thesis by (rule malformed_timestamp_aborts [OF 1 2 run_malformed])
qed

text \<open>
  The claim as written fails: the service instance of \<open>spaceB\<close> does not parse, the call
  returns an error, and \<^verbatim>\<open>toPurge\<close> holds \<open>spaceA\<close>, which was classified before.
\<close>

theorem malformed_timestamp_partial_output_counterexample:
  "spaceB \<in> set [spaceA, spaceB, spaceC, spaceD] \<and>
   ServiceInstance.SpaceGuid instanceB_malformed = Space.Guid spaceB \<and>
   isl (Parse (ServiceInstance.CreatedAt instanceB_malformed)) \<and>
   ListPurgeSpaces Parse [spaceA, spaceB, spaceC, spaceD] [appA, appD] [instanceB_malformed]
     (Date 2017 1 21 0 0 0 0) 7 14 (Date 2016 1 1 0 0 0 0) =
     ([], [\<lparr>Timestamp = Date 2017 1 1 0 0 0 0, Space = spaceA\<rparr>],
      Some (ParseError ''yesterday''))"
  by (simp add: run_malformed run_malformed_prefix(3) guids)

subsection \<open>C3: the errors of PurgeSpace\<close>

text \<open>
  Claim C3. For every client, every space and every state of the platform, with the
  calls logged: if \<^verbatim>\<open>DeleteSpace\<close> succeeds, \<^verbatim>\<open>PurgeSpace\<close> returns no error and
  \<^verbatim>\<open>DeleteSpace\<close> is the only call; if it fails and listing the apps of the space fails,
  the listing error is returned; if it fails, the apps are listed, the deletions of the
  apps \<open>pre\<close> succeed and the deletion of the next app fails, the error of that deletion
  is returned and no call follows it; and if every deletion succeeds, the error of
  \<^verbatim>\<open>DeleteSpace\<close> is returned. The logged run returns the error and the state of the
  plain run.
\<close>

theorem PurgeSpace_errors:
  "(DeleteSpace client (Space.Guid space) True False w = (None, w1) \<longrightarrow>
      PurgeSpace (logged client) space (w, []) =
        (None, (w1, [DeleteSpaceCall (Space.Guid space) True False]))) \<and>
   (DeleteSpace client (Space.Guid space) True False w = (Some spaceErr, w1) \<and>
    ListAppsByQuery client (spaceQuery space) w1 = (Inl listErr, w2) \<longrightarrow>
      PurgeSpace (logged client) space (w, []) =
        (Some listErr, (w2, [DeleteSpaceCall (Space.Guid space) True False,
                             ListAppsByQueryCall (spaceQuery space)]))) \<and>
   (DeleteSpace client (Space.Guid space) True False w = (Some spaceErr, w1) \<and>
    ListAppsByQuery client (spaceQuery space) w1 = (Inr (pre @ app # post), ws ! 0) \<and>
    deletions_succeed client pre ws \<and>
    DeleteApp client (App.Guid app) (last ws) = (Some deleteErr, w3) \<longrightarrow>
      PurgeSpace (logged client) space (w, []) =
        (Some deleteErr, (w3, [DeleteSpaceCall (Space.Guid space) True False,
                               ListAppsByQueryCall (spaceQuery space)]
                              @ map (DeleteAppCall \<circ> App.Guid) pre
                              @ [DeleteAppCall (App.Guid app)]))) \<and>
   (DeleteSpace client (Space.Guid space) True False w = (Some spaceErr, w1) \<and>
    ListAppsByQuery client (spaceQuery space) w1 = (Inr apps, ws ! 0) \<and>
    deletions_succeed client apps ws \<longrightarrow>
      PurgeSpace (logged client) space (w, []) =
        (Some spaceErr, (last ws, [DeleteSpaceCall (Space.Guid space) True False,
                                   ListAppsByQueryCall (spaceQuery space)]
                                  @ map (DeleteAppCall \<circ> App.Guid) apps))) \<and>
   (\<exists>calls. PurgeSpace (logged client) space (w, []) =
      (fst (PurgeSpace client space w), snd (PurgeSpace client space w), calls))"
proof (intro conjI impI)
  show "\<exists>calls. PurgeSpace (logged client) space (w, []) =
       (fst (PurgeSpace client space w), snd (PurgeSpace client space w), calls)"
    by (rule PurgeSpace_logged)
qed (simp_all add: PurgeSpace_def PurgeSpace_apps_succeed PurgeSpace_apps_failure)

theorem PurgeSpace_errors_witness:
  "PurgeSpace (logged platformClient) spaceA (platform True True [], []) =
     (None, (platform True True [], [DeleteSpaceCall ''guid-a'' True False])) \<and>
   PurgeSpace (logged platformClient) spaceA (platform False False [], []) =
     (Some ''apps not listed'',
      (platform False False [],
       [DeleteSpaceCall ''guid-a'' True False, ListAppsByQueryCall (spaceQuery spaceA)])) \<and>
   PurgeSpace (logged platformClient) spaceA (platform False True [''app-a-midnight''], []) =
     (Some ''app not deleted'',
      ((platform False True [''app-a-midnight''])\<lparr>deletedApps := [''app-a'']\<rparr>,
       [DeleteSpaceCall ''guid-a'' True False, ListAppsByQueryCall (spaceQuery spaceA),
        DeleteAppCall ''app-a'', DeleteAppCall ''app-a-midnight''])) \<and>
   PurgeSpace (logged platformClient) spaceA (platform False True [], []) =
     (Some ''space not deleted'',
      ((platform False True [])\<lparr>deletedApps := [''app-a'', ''app-a-midnight'']\<rparr>,
       [DeleteSpaceCall ''guid-a'' True False, ListAppsByQueryCall (spaceQuery spaceA),
        DeleteAppCall ''app-a'', DeleteAppCall ''app-a-midnight'']))"
proof -
  let ?c = platformClient
  let ?ok = "platform True True []"
  let ?nolist = "platform False False []"
  let ?stuck = "platform False True [''app-a-midnight'']"
  let ?free = "platform False True []"
  have A: "DeleteSpace ?c (Space.Guid spaceA) True False ?ok = (None, ?ok)"
    by (simp add: platformClient_def platform_def)
  have B: "DeleteSpace ?c (Space.Guid spaceA) True False ?nolist = (Some ''space not deleted'', ?nolist)
      \<and> ListAppsByQuery ?c (spaceQuery spaceA) ?nolist = (Inl ''apps not listed'', ?nolist)"
    by (simp add: platformClient_def platform_def)
  have C: "DeleteSpace ?c (Space.Guid spaceA) True False ?stuck = (Some ''space not deleted'', ?stuck)
      \<and> ListAppsByQuery ?c (spaceQuery spaceA) ?stuck =
          (Inr ([appA] @ appA_midnight # []), [?stuck, ?stuck\<lparr>deletedApps := [''app-a'']\<rparr>] ! 0)
      \<and> deletions_succeed ?c [appA] [?stuck, ?stuck\<lparr>deletedApps := [''app-a'']\<rparr>]
      \<and> DeleteApp ?c (App.Guid appA_midnight) (last [?stuck, ?stuck\<lparr>deletedApps := [''app-a'']\<rparr>])
          = (Some ''app not deleted'', ?stuck\<lparr>deletedApps := [''app-a'']\<rparr>)"
    by (simp add: platformClient_def platform_def deletions_succeed_def guids)
  have D: "DeleteSpace ?c (Space.Guid spaceA) True False ?free = (Some ''space not deleted'', ?free)
      \<and> ListAppsByQuery ?c (spaceQuery spaceA) ?free =
          (Inr [appA, appA_midnight],
           [?free, ?free\<lparr>deletedApps := [''app-a'']\<rparr>,
            ?free\<lparr>deletedApps := [''app-a'', ''app-a-midnight'']\<rparr>] ! 0)
      \<and> deletions_succeed ?c [appA, appA_midnight]
           [?free, ?free\<lparr>deletedApps := [''app-a'']\<rparr>,
            ?free\<lparr>deletedApps := [''app-a'', ''app-a-midnight'']\<rparr>]"
    by (simp add: platformClient_def platform_def deletions_succeed_def guids less_Suc_eq)
  from A PurgeSpace_errors [where client = ?c and space = spaceA and w = ?ok and ?w1.0 = ?ok]
  have 1: "PurgeSpace (logged ?c) spaceA (?ok, []) =
      (None, (?ok, [DeleteSpaceCall ''guid-a'' True False]))"
    by (simp add: guids)
  from B PurgeSpace_errors [where client = ?c and space = spaceA and w = ?nolist
      and ?w1.0 = ?nolist and ?w2.0 = ?nolist and spaceErr = "''space not deleted''"
      and listErr = "''apps not listed''"]
  have 2: "PurgeSpace (logged ?c) spaceA (?nolist, []) =
      (Some ''apps not listed'',
       (?nolist, [DeleteSpaceCall ''guid-a'' True False, ListAppsByQueryCall (spaceQuery spaceA)]))"
    by (simp add: guids)
  from C PurgeSpace_errors [where client = ?c and space = spaceA and w = ?stuck
      and ?w1.0 = ?stuck and spaceErr = "''space not deleted''" and pre = "[appA]"
      and app = appA_midnight and post = "[]"
      and ws = "[?stuck, ?stuck\<lparr>deletedApps := [''app-a'']\<rparr>]"
      and deleteErr = "''app not deleted''"
      and ?w3.0 = "?stuck\<lparr>deletedApps := [''app-a'']\<rparr>"]
  have 3: "PurgeSpace (logged ?c) spaceA (?stuck, []) =
      (Some ''app not deleted'',
       (?stuck\<lparr>deletedApps := [''app-a'']\<rparr>,
        [DeleteSpaceCall ''guid-a'' True False, ListAppsByQueryCall (spaceQuery spaceA),
         DeleteAppCall ''app-a'', DeleteAppCall ''app-a-midnight'']))"
    by (simp add: guids)
  from D PurgeSpace_errors [where client = ?c and space = spaceA and w = ?free
      and ?w1.0 = ?free and spaceErr = "''space not deleted''"
      and apps = "[appA, appA_midnight]"
      and ws = "[?free, ?free\<lparr>deletedApps := [''app-a'']\<rparr>,
                 ?free\<lparr>deletedApps := [''app-a'', ''app-a-midnight'']\<rparr>]"]
  have 4: "PurgeSpace (logged ?c) spaceA (?free, []) =
      (Some ''space not deleted'',
       (?free\<lparr>deletedApps := [''app-a'', ''app-a-midnight'']\<rparr>,
        [DeleteSpaceCall ''guid-a'' True False, ListAppsByQueryCall (spaceQuery spaceA),
         DeleteAppCall ''app-a'', DeleteAppCall ''app-a-midnight'']))"
    by (simp add: guids)
  from 1 2 3 4 show ?thesis by (intro conjI)
qed

subsection \<open>C4: the earliest resource\<close>

text \<open>
  Claim C4, as it holds. For every space whose apps and service instances all parse,
  and none of them to the zero instant (January 1 of year 1, 00:00:00 UTC),
  \<^verbatim>\<open>GetFirstResource\<close> returns no error and the minimum of the creation timestamps of the
  space's apps and service instances (\<open>ta\<close> and \<open>ti\<close> below); what it returns is the zero
  instant if and only if the space has no app and no service instance. (The loops take
  a zero \<^verbatim>\<open>firstResource\<close> for "nothing seen yet", so a resource created at the zero
  instant is returned as if the space were empty, or is overwritten by a later one.)
\<close>

theorem GetFirstResource_earliest:
  assumes "map (parse \<circ> App.CreatedAt) (filter (\<lambda>a. App.SpaceGuid a = Space.Guid space) apps)
             = map Inr ta"
    and "map (parse \<circ> ServiceInstance.CreatedAt)
           (filter (\<lambda>i. ServiceInstance.SpaceGuid i = Space.Guid space) instances) = map Inr ti"
    and "\<forall>t \<in> set (ta @ ti). \<not> IsZero t"
  shows "GetFirstResource parse space apps instances =
           (if ta @ ti = [] then zeroTime else Min (set (ta @ ti)), None) \<and>
         (IsZero (fst (GetFirstResource parse space apps instances)) \<longleftrightarrow>
            (\<forall>a \<in> set apps. App.SpaceGuid a \<noteq> Space.Guid space) \<and>
            (\<forall>i \<in> set instances. ServiceInstance.SpaceGuid i \<noteq> Space.Guid space))"
proof -
  let ?pick = "\<lambda>f c. if IsZero f \<or> Before c f then c else f"
  have "GetFirstResource parse space apps instances = (foldl ?pick (foldl ?pick zeroTime ta) ti, None)"
    by (simp add: GetFirstResource_unfold GetFirstResource_apps_parsed [OF assms(1)]
        GetFirstResource_instances_parsed [OF assms(2)])
  also have "foldl ?pick (foldl ?pick zeroTime ta) ti = foldl ?pick zeroTime (ta @ ti)" by simp
  also have "\<dots> = (if ta @ ti = [] then zeroTime else Min (set (ta @ ti)))"
    using assms(3) by (rule foldl_pick_zero)
  finally have G: "GetFirstResource parse space apps instances =
           (if ta @ ti = [] then zeroTime else Min (set (ta @ ti)), None)" .
  have "ta @ ti \<noteq> [] \<Longrightarrow> Min (set (ta @ ti)) \<in> set (ta @ ti)" by (intro Min_in) simp_all
  with assms(3) have nz: "ta @ ti \<noteq> [] \<Longrightarrow> \<not> IsZero (Min (set (ta @ ti)))" by blast
  have "ta = [] \<longleftrightarrow> (\<forall>a \<in> set apps. App.SpaceGuid a \<noteq> Space.Guid space)"
    using arg_cong [OF assms(1), of length] by (auto simp: filter_empty_conv)
  moreover have "ti = [] \<longleftrightarrow> (\<forall>i \<in> set instances. ServiceInstance.SpaceGuid i \<noteq> Space.Guid space)"
    using arg_cong [OF assms(2), of length] by (auto simp: filter_empty_conv)
  ultimately have "ta @ ti = [] \<longleftrightarrow>
      (\<forall>a \<in> set apps. App.SpaceGuid a \<noteq> Space.Guid space) \<and>
      (\<forall>i \<in> set instances. ServiceInstance.SpaceGuid i \<noteq> Space.Guid space)" by simp
  moreover have "IsZero (fst (GetFirstResource parse space apps instances)) \<longleftrightarrow> ta @ ti = []"
    using nz by (auto simp: G IsZero_def zeroTime_def)
  ultimately show ?thesis using G by simp
qed

theorem GetFirstResource_earliest_witness:
  "GetFirstResource Parse spaceA [appA, appD, appA_midnight] [instanceA, instanceB] =
     (Date 2017 1 1 4 0 0 0, None) \<and>
   \<not> IsZero (Date 2017 1 1 4 0 0 0) \<and>
   App.SpaceGuid appA = Space.Guid spaceA"
proof -
  have nz: "\<forall>t \<in> set ([Date 2017 1 1 8 30 0 0, Date 2017 1 5 0 0 0 0] @ [Date 2017 1 1 4 0 0 0]).
      \<not> IsZero t"
    by (simp add: IsZero_def dates)
  from GetFirstResource_earliest [OF parsed_spaceA(1) parsed_spaceA(2) nz]
  show ?thesis by (simp add: dates guids IsZero_def)
qed

text \<open>
  The claim as written fails on a resource created at the zero instant. With the single
  app \<open>appA_year1\<close>, \<open>spaceA\<close> has a resource and the zero instant is returned; with
  \<open>appA_year1\<close> and \<open>appA\<close>, what is returned is the timestamp of \<open>appA\<close>, which is not the
  minimum.
\<close>

theorem GetFirstResource_zero_instant_counterexample:
  "App.SpaceGuid appA_year1 = Space.Guid spaceA \<and>
   Parse (App.CreatedAt appA_year1) = Inr zeroTime \<and>
   GetFirstResource Parse spaceA [appA_year1] [] = (zeroTime, None) \<and>
   IsZero zeroTime \<and>
   GetFirstResource Parse spaceA [appA_year1, appA] [] = (Date 2017 1 1 8 30 0 0, None) \<and>
   zeroTime < Date 2017 1 1 8 30 0 0"
  by (simp add: first_year1 guids IsZero_def zeroTime_def dates)

subsection \<open>C5: notify and purge exclude each other\<close>



subsection \<open>C6: a space without resources\<close>

text \<open>
  Claim C6. For every pair of thresholds, every \<^verbatim>\<open>now\<close> and every \<^verbatim>\<open>timeStartsAt\<close>, a space
  whose identifier no app and no service instance carries is neither in \<^verbatim>\<open>toNotify\<close> nor
  in \<^verbatim>\<open>toPurge\<close>.
\<close>

theorem empty_space_excluded:
  assumes "\<forall>a \<in> set apps. App.SpaceGuid a \<noteq> Space.Guid s"
    and "\<forall>i \<in> set instances. ServiceInstance.SpaceGuid i \<noteq> Space.Guid s"
    and "ListPurgeSpaces parse spaces apps instances now notifyThreshold purgeThreshold
           timeStartsAt = (toNotify, toPurge, err)"
  shows "s \<notin> Space ` set toNotify \<and> s \<notin> Space ` set toPurge"
proof -
  have "IsZero (fst (GetFirstResource parse s apps instances))"
    using GetFirstResource_no_resources [OF assms(1,2), of parse]
    by (simp add: IsZero_def zeroTime_def)
  then have "\<not> notified parse apps instances now notifyThreshold purgeThreshold timeStartsAt s"
    and "\<not> purged parse apps instances now purgeThreshold timeStartsAt s"
    by (simp_all add: notified_def purged_def)
  then show ?thesis
    using in_toNotify [OF assms(3)] in_toPurge [OF assms(3)] by auto
qed

theorem empty_space_excluded_witness:
  "spaceC \<in> set [spaceA, spaceB, spaceC, spaceD] \<and>
   spaceC \<notin> Space ` set [\<lparr>Timestamp = Date 2017 1 11 0 0 0 0, Space = spaceB\<rparr>] \<and>
   spaceC \<notin> Space ` set [\<lparr>Timestamp = Date 2017 1 1 0 0 0 0, Space = spaceA\<rparr>]"
proof -
  have 1: "\<forall>a \<in> set [appA, appD]. App.SpaceGuid a \<noteq> Space.Guid spaceC"
    by (simp add: guids)
  have 2: "\<forall>i \<in> set [instanceB]. ServiceInstance.SpaceGuid i \<noteq> Space.Guid spaceC"
    by (simp add: guids)
  from empty_space_excluded [OF 1 2 run_scenario] show ?thesis by simp
qed

subsection \<open>C7: one day later\<close>

text \<open>
  Claim C7. For fixed spaces, resources, thresholds and \<^verbatim>\<open>timeStartsAt\<close>, a run one day
  later (\<^verbatim>\<open>now\<close> plus 24 hours) moves no space backwards: every entry of \<^verbatim>\<open>toNotify\<close> is
  then in \<^verbatim>\<open>toNotify\<close> or in \<^verbatim>\<open>toPurge\<close>, and every entry of \<^verbatim>\<open>toPurge\<close> is in \<^verbatim>\<open>toPurge\<close>.
  An entry is a space with its anchor, so the same holds for the spaces.
\<close>

theorem later_run_moves_forward:
  assumes "ListPurgeSpaces parse spaces apps instances now notifyThreshold purgeThreshold
             timeStartsAt = (toNotify, toPurge, err)"
    and "ListPurgeSpaces parse spaces apps instances (now + 24 * Hour) notifyThreshold
           purgeThreshold timeStartsAt = (toNotify', toPurge', err')"
  shows "(\<forall>e \<in> set toNotify. e \<in> set toNotify' \<or> e \<in> set toPurge') \<and>
         (\<forall>e \<in> set toPurge. e \<in> set toPurge')"
proof -
  have le: "now \<le> now + 24 * Hour" using Hour_day_pos by simp
  have d: "delta now a \<le> delta (now + 24 * Hour) a" for a using le by (rule delta_mono)
  have P: "purged parse apps instances (now + 24 * Hour) purgeThreshold timeStartsAt s"
    if "purged parse apps instances now purgeThreshold timeStartsAt s" for s
    using that d [of "anchor timeStartsAt (fst (GetFirstResource parse s apps instances))"]
    by (simp add: purged_def)
  have N: "notified parse apps instances (now + 24 * Hour) notifyThreshold purgeThreshold timeStartsAt s
         \<or> purged parse apps instances (now + 24 * Hour) purgeThreshold timeStartsAt s"
    if "notified parse apps instances now notifyThreshold purgeThreshold timeStartsAt s" for s
    using that d [of "anchor timeStartsAt (fst (GetFirstResource parse s apps instances))"]
    by (auto simp: purged_def notified_def)
  show ?thesis
    using in_toNotify [OF assms(1)] in_toPurge [OF assms(1)]
      in_toNotify [OF assms(2)] in_toPurge [OF assms(2)] P N
    by blast
qed

theorem later_run_moves_forward_witness:
  "\<lparr>Timestamp = Date 2017 1 11 0 0 0 0, Space = spaceB\<rparr> \<in>
     set [\<lparr>Timestamp = Date 2017 1 1 0 0 0 0, Space = spaceA\<rparr>,
          \<lparr>Timestamp = Date 2017 1 11 0 0 0 0, Space = spaceB\<rparr>] \<and>
   \<lparr>Timestamp = Date 2017 1 1 0 0 0 0, Space = spaceA\<rparr> \<in>
     set [\<lparr>Timestamp = Date 2017 1 1 0 0 0 0, Space = spaceA\<rparr>,
          \<lparr>Timestamp = Date 2017 1 11 0 0 0 0, Space = spaceB\<rparr>]"
  using later_run_moves_forward [OF run_day_before run_day_after] by simp

subsection \<open>C8: clamping before truncating\<close>




subsection \<open>C9: grouping by space\<close>

text \<open>
  Claim C9. For every list of apps and every list of service instances, the map built by
  grouping holds at a key \<open>k\<close> exactly the resources whose space identifier is \<open>k\<close>, in
  the order of the input (the bucket is the input filtered by the key, so every
  occurrence of a resource is in the bucket of its own key once and in no other bucket);
  a key that no resource carries has no entry; and the buckets of all keys together are
  the input as a multiset, with no loss and no duplication.
\<close>

theorem grouping_partitions_input:
  "(\<forall>k. groupAppsBySpace apps k =
      (if k \<in> App.SpaceGuid ` set apps
       then Some (filter (\<lambda>a. App.SpaceGuid a = k) apps) else None)) \<and>
   (\<Sum>k \<in> dom (groupAppsBySpace apps). mset (index (groupAppsBySpace apps) k)) = mset apps \<and>
   (\<forall>k. groupInstancesBySpace instances k =
      (if k \<in> ServiceInstance.SpaceGuid ` set instances
       then Some (filter (\<lambda>i. ServiceInstance.SpaceGuid i = k) instances) else None)) \<and>
   (\<Sum>k \<in> dom (groupInstancesBySpace instances).
       mset (index (groupInstancesBySpace instances) k)) = mset instances"
proof (intro conjI allI)
  show "(\<Sum>k \<in> dom (groupAppsBySpace apps). mset (index (groupAppsBySpace apps) k)) = mset apps"
    by (simp only: dom_groupAppsBySpace index_groupAppsBySpace mset_classes)
  show "(\<Sum>k \<in> dom (groupInstancesBySpace instances).
           mset (index (groupInstancesBySpace instances) k)) = mset instances"
    by (simp only: dom_groupInstancesBySpace index_groupInstancesBySpace mset_classes)
qed (rule groupAppsBySpace_at groupInstancesBySpace_at)+

theorem grouping_partitions_input_witness:
  "groupAppsBySpace [appA, appD, appA_midnight] ''guid-a'' = Some [appA, appA_midnight] \<and>
   groupAppsBySpace [appA, appD, appA_midnight] ''guid-d'' = Some [appD] \<and>
   groupAppsBySpace [appA, appD, appA_midnight] ''guid-c'' = None \<and>
   groupInstancesBySpace [instanceA, instanceB] ''guid-b'' = Some [instanceB]"
  using grouping_partitions_input [of "[appA, appD, appA_midnight]" "[instanceA, instanceB]"]
  by (simp add: guids)

subsection \<open>C10: anchors are multiples of 24 hours\<close>

text \<open>
  Claim C10. For every input, the \<^verbatim>\<open>Timestamp\<close> of every entry of \<^verbatim>\<open>toNotify\<close> and of
  \<^verbatim>\<open>toPurge\<close> is exactly on a 24-hour boundary: it is a multiple of 24 hours since the
  zero Time, and truncating it again by 24 hours leaves it unchanged.
\<close>

theorem timestamps_truncated:
  assumes "ListPurgeSpaces parse spaces apps instances now notifyThreshold purgeThreshold
             timeStartsAt = (toNotify, toPurge, err)"
  shows "\<forall>e \<in> set toNotify \<union> set toPurge.
           Timestamp e mod (24 * Hour) = 0 \<and>
           Truncate (Timestamp e) (24 * Hour) = Timestamp e"
  using in_toNotify [OF assms] in_toPurge [OF assms] by (auto simp: anchor_idem anchor_mod)

theorem timestamps_truncated_witness:
  "Date 2017 1 11 0 0 0 0 mod (24 * Hour) = 0 \<and>
   Truncate (Date 2017 1 11 0 0 0 0) (24 * Hour) = Date 2017 1 11 0 0 0 0 \<and>
   Date 2017 1 1 0 0 0 0 mod (24 * Hour) = 0 \<and>
   Truncate (Date 2017 1 1 0 0 0 0) (24 * Hour) = Date 2017 1 1 0 0 0 0"
  using timestamps_truncated [OF run_scenario] by simp

end
